theory Spec2Isabelle
  imports Main "HOL-Library.AList" "HOL-Library.Option_ord"
begin

section \<open>Values, requests and the world a handler runs in\<close>

text \<open>
  The controller works on plain JavaScript data: request bodies, stored documents and
  the elements embedded in them. They are modelled as JSON values; an object is an
  association list read with \<open>map_of\<close>. An identifier (an ObjectId of the store, or its
  \<open>toString()\<close>) is a \<open>JStr\<close>.
\<close>

datatype json =
    JNull
  | JBool bool
  | JNum int
  | JStr string
  | JArr "json list"
  | JObj "(string \<times> json) list"

datatype error = TypeError | StoreError string

text \<open>The argument of \<open>res.send\<close>: a value, or the error object handed to \<open>handleError\<close>.\<close>

datatype payload = Value json | Failure error

text \<open>The calls a handler makes on \<open>res\<close>, in the order it makes them.\<close>

datatype res_call = Status nat | Json json | Send payload | End

text \<open>
  A segment of a dotted field path of a store query or update: a field name, a numeric
  array position, or the positional operator \<open>$\<close>.
\<close>

datatype seg = Key string | Idx nat | Dollar

text \<open>
  One entry of a conditions object. \<open>Top k v\<close> is \<open>{k: v}\<close> on a field of the document;
  \<open>Within p k v\<close> is the dotted condition \<open>{'p.k': v}\<close> whose path \<open>p\<close> leads to an array
  of embedded elements: it holds when some element of that array has \<open>k\<close> equal to \<open>v\<close>.
\<close>

datatype cond = Top string json | Within "seg list" string json

text \<open>
  An update document: \<open>SetFields\<close> is a document of plain \<open>path: value\<close> entries (which the
  store client applies as a set), \<open>PushTo\<close> is \<open>{$push: {path: element}}\<close>, \<open>PullFrom\<close> is
  \<open>{$pull: {path: {k1: v1, ...}}}\<close>.
\<close>

datatype upd =
    SetFields "(seg list \<times> json) list"
  | PushTo "seg list" json
  | PullFrom "seg list" "(string \<times> json) list"

text \<open>The calls issued to the Question store.\<close>

datatype db_call =
    FindSorted
  | FindById string
  | FindWhere "cond list"
  | Create json
  | Save json
  | Remove json
  | Update "cond list" upd

text \<open>
  \<open>req\<close>: the route parameters, the parsed body and the acting user. The authentication
  middleware puts the acting user on the request; \<open>req.user\<close>, \<open>req.user.id\<close> and
  \<open>req.user._id\<close> all denote its identifier.
\<close>

record request =
  params_id :: string
  params_answerId :: string
  params_commentId :: string
  body :: "(string \<times> json) list"
  user :: string

text \<open>
  The world of one request: the \<open>questions\<close> collection in insertion order, the failure
  the store answers every call with (if any), which of several array conditions binds
  the positional operator, what the installed lodash makes of a stored value and a
  payload value of different kinds, the identifier and the time the store hands out on
  an insert, and the logs of the calls made on the store and on \<open>res\<close>. \<open>uncaught\<close> holds
  an exception thrown outside every promise chain.
\<close>

record world =
  docs :: "json list"
  fault :: "error option"
  pos_last :: bool
  mixed :: "json \<Rightarrow> json \<Rightarrow> json"
  new_oid :: string
  clock :: int
  ops :: "db_call list"
  res :: "res_call list"
  uncaught :: "error option"

section \<open>Reading JavaScript values\<close>

fun get_field :: "string \<Rightarrow> json \<Rightarrow> json option" where
  "get_field k (JObj kvs) = map_of kvs k"
| "get_field k _ = None"

text \<open>The elements of an array-valued field; a field that is absent has none.\<close>

fun items :: "json option \<Rightarrow> json list" where
  "items (Some (JArr xs)) = xs"
| "items _ = []"

text \<open>JavaScript truthiness, as \<open>if (req.body._id)\<close> tests it.\<close>

fun truthy :: "json \<Rightarrow> bool" where
  "truthy JNull = False"
| "truthy (JBool b) = b"
| "truthy (JNum n) = (n \<noteq> 0)"
| "truthy (JStr s) = (s \<noteq> [])"
| "truthy (JArr xs) = True"
| "truthy (JObj kvs) = True"

text \<open>
  \<open>x._id.toString()\<close> and \<open>entity.user._id.toString()\<close>: the identifier as a string.
  Reading it from a value that has none raises a TypeError (\<open>None\<close>).
\<close>

definition id_string :: "json \<Rightarrow> string option" where
  "id_string x = (case get_field ''_id'' x of Some (JStr s) \<Rightarrow> Some s | _ \<Rightarrow> None)"

definition owner :: "json \<Rightarrow> string option" where
  "owner entity = (case get_field ''user'' entity of Some (JStr u) \<Rightarrow> Some u | _ \<Rightarrow> None)"

section \<open>lodash merge\<close>

text \<open>
  \<open>_.merge(object, source)\<close> on plain data: every own property of the source is visited;
  a value that is neither an array nor an object, \<open>null\<close> included, is assigned; an array
  or object value is merged recursively into the destination's value of the same kind,
  and into a fresh array or object when the destination has no value there. Properties
  the source does not have are not touched. What becomes of an array or object that
  meets a destination value of another kind differs between the versions of the
  library: it is the parameter \<open>mx\<close>, applied to the destination's value and the source's.
\<close>

fun merge_val :: "(json \<Rightarrow> json \<Rightarrow> json) \<Rightarrow> json option \<Rightarrow> json \<Rightarrow> json"
  and merge_obj :: "(json \<Rightarrow> json \<Rightarrow> json) \<Rightarrow> (string \<times> json) list \<Rightarrow> (string \<times> json) list
                      \<Rightarrow> (string \<times> json) list"
  and merge_arr :: "(json \<Rightarrow> json \<Rightarrow> json) \<Rightarrow> json list \<Rightarrow> json list \<Rightarrow> json list" where
  "merge_val mx None (JObj s) = JObj (merge_obj mx [] s)"
| "merge_val mx (Some (JObj kvs)) (JObj s) = JObj (merge_obj mx kvs s)"
| "merge_val mx (Some d) (JObj s) = mx d (JObj s)"
| "merge_val mx None (JArr s) = JArr (merge_arr mx [] s)"
| "merge_val mx (Some (JArr xs)) (JArr s) = JArr (merge_arr mx xs s)"
| "merge_val mx (Some d) (JArr s) = mx d (JArr s)"
| "merge_val mx d JNull = JNull"
| "merge_val mx d (JBool b) = JBool b"
| "merge_val mx d (JNum n) = JNum n"
| "merge_val mx d (JStr t) = JStr t"
| "merge_obj mx kvs [] = kvs"
| "merge_obj mx kvs ((k, v) # s) =
     merge_obj mx (AList.update k (merge_val mx (map_of kvs k) v) kvs) s"
| "merge_arr mx xs [] = xs"
| "merge_arr mx [] (v # s) = merge_val mx None v # merge_arr mx [] s"
| "merge_arr mx (x # xs) (v # s) = merge_val mx (Some x) v # merge_arr mx xs s"

definition merge :: "(json \<Rightarrow> json \<Rightarrow> json) \<Rightarrow> json \<Rightarrow> (string \<times> json) list \<Rightarrow> json" where
  "merge mx entity updates = merge_val mx (Some entity) (JObj updates)"

section \<open>The Question store\<close>

text \<open>
  The store client is a collaborator of the controller: mongoose 4 (the \<open>...Async\<close>
  methods are its promisified ones) over a document store with Mongo-style query and
  update operators. Its calls are modelled on the collection held in the world, with
  the operators the controller uses and their documented meaning: equality on a field,
  equality through an array of embedded elements (a dotted path), the positional
  operator, \<open>$push\<close> and \<open>$pull\<close>. A store that fails answers every call with its error
  and changes nothing.
\<close>

fun step :: "json \<Rightarrow> seg \<Rightarrow> json option" where
  "step (JObj kvs) (Key k) = map_of kvs k"
| "step (JArr xs) (Idx i) = (if i < length xs then Some (xs ! i) else None)"
| "step _ _ = None"

fun walk :: "seg list \<Rightarrow> json \<Rightarrow> json option" where
  "walk [] v = Some v"
| "walk (s # p) v = (case step v s of None \<Rightarrow> None | Some v' \<Rightarrow> walk p v')"

fun first_index :: "('a \<Rightarrow> bool) \<Rightarrow> 'a list \<Rightarrow> nat option" where
  "first_index P [] = None"
| "first_index P (x # xs) = (if P x then Some 0 else map_option Suc (first_index P xs))"

definition has :: "string \<Rightarrow> json \<Rightarrow> json \<Rightarrow> bool" where
  "has k v e = (get_field k e = Some v)"

fun holds :: "cond \<Rightarrow> json \<Rightarrow> bool" where
  "holds (Top k v) d = has k v d"
| "holds (Within p k v) d = list_ex (has k v) (items (walk p d))"

text \<open>
  The array position a condition records when it holds: the first element of the
  array that satisfies it.
\<close>

fun position :: "cond \<Rightarrow> json \<Rightarrow> nat option" where
  "position (Top k v) d = None"
| "position (Within p k v) d = first_index (has k v) (items (walk p d))"

definition matches :: "cond list \<Rightarrow> json \<Rightarrow> bool" where
  "matches conds d = list_all (\<lambda>c. holds c d) conds"

text \<open>
  The position the positional operator stands for. Each condition of the conditions
  object is on its own: two conditions on the same array may be satisfied by two
  different elements. When several conditions record a position, \<open>pos_last\<close> says
  whether the last or the first of them binds the operator.
\<close>

definition bound :: "bool \<Rightarrow> cond list \<Rightarrow> json \<Rightarrow> nat option" where
  "bound lst conds d =
     (case List.map_filter (\<lambda>c. position c d) conds of
        [] \<Rightarrow> None
      | i # ps \<Rightarrow> Some (if lst then last (i # ps) else i))"

text \<open>
  \<open>modify n p f d\<close> applies \<open>f\<close> to the value at path \<open>p\<close> of \<open>d\<close>, where \<open>n\<close> is the
  bound position; \<open>f\<close> sees \<open>None\<close> for an absent field and answers \<open>None\<close> to leave
  the document as it is. A path that leads nowhere changes nothing.
\<close>

fun modify :: "nat option \<Rightarrow> seg list \<Rightarrow> (json option \<Rightarrow> json option) \<Rightarrow> json \<Rightarrow> json" where
  "modify n [Key k] f (JObj kvs) =
     (case f (map_of kvs k) of None \<Rightarrow> JObj kvs | Some v \<Rightarrow> JObj (AList.update k v kvs))"
| "modify n (Key k # p) f (JObj kvs) =
     (case map_of kvs k of None \<Rightarrow> JObj kvs
      | Some v \<Rightarrow> JObj (AList.update k (modify n p f v) kvs))"
| "modify n (Idx i # p) f (JArr xs) =
     (if i < length xs then JArr (xs[i := modify n p f (xs ! i)]) else JArr xs)"
| "modify (Some j) (Dollar # p) f (JArr xs) =
     (if j < length xs then JArr (xs[j := modify (Some j) p f (xs ! j)]) else JArr xs)"
| "modify n p f v = v"

definition meets :: "(string \<times> json) list \<Rightarrow> json \<Rightarrow> bool" where
  "meets crit e = list_all (\<lambda>(k, v). has k v e) crit"

fun push :: "json \<Rightarrow> json option \<Rightarrow> json option" where
  "push e None = Some (JArr [e])"
| "push e (Some (JArr xs)) = Some (JArr (xs @ [e]))"
| "push e (Some v) = None"

fun pull :: "(string \<times> json) list \<Rightarrow> json option \<Rightarrow> json option" where
  "pull crit (Some (JArr xs)) = Some (JArr (filter (\<lambda>e. \<not> meets crit e) xs))"
| "pull crit v = None"

fun apply_upd :: "nat option \<Rightarrow> upd \<Rightarrow> json \<Rightarrow> json" where
  "apply_upd n (SetFields kvs) d = fold (\<lambda>(p, v). modify n p (\<lambda>_. Some v)) kvs d"
| "apply_upd n (PushTo p e) d = modify n p (push e) d"
| "apply_upd n (PullFrom p crit) d = modify n p (pull crit) d"

definition issue :: "db_call \<Rightarrow> world \<Rightarrow> world" where
  "issue c w = w\<lparr>ops := ops w @ [c]\<rparr>"

text \<open>
  The second argument of the callback of \<open>Question.update\<close>: the raw reply of the store,
  the object \<open>{ok: 1, nModified: m, n: n}\<close> with the number \<open>n\<close> of documents matched and
  the number \<open>m\<close> of documents changed.
\<close>

definition reply :: "nat \<Rightarrow> nat \<Rightarrow> json" where
  "reply n m = JObj [(''ok'', JNum 1), (''nModified'', JNum (int m)), (''n'', JNum (int n))]"

text \<open>
  \<open>Question.update(conditions, doc, callback)\<close>: the first document that meets every
  condition is updated; the callback gets the error or the reply.
\<close>

definition Question_update :: "cond list \<Rightarrow> upd \<Rightarrow> world \<Rightarrow> (error + json) \<times> world" where
  "Question_update conds u w =
     (let w1 = issue (Update conds u) w in
      case fault w of
        Some err \<Rightarrow> (Inl err, w1)
      | None \<Rightarrow>
          (case first_index (matches conds) (docs w) of
             None \<Rightarrow> (Inr (reply 0 0), w1)
           | Some i \<Rightarrow>
               (let d = apply_upd (bound (pos_last w) conds (docs w ! i)) u (docs w ! i)
                in (Inr (reply 1 (if d = docs w ! i then 0 else 1)),
                    w1\<lparr>docs := (docs w)[i := d]\<rparr>))))"

text \<open>\<open>Question.findByIdAsync(id)\<close>: the document with that \<open>_id\<close>, or null.\<close>

definition Question_findById :: "string \<Rightarrow> world \<Rightarrow> (error + json option) \<times> world" where
  "Question_findById i w =
     (let w1 = issue (FindById i) w in
      case fault w of
        Some err \<Rightarrow> (Inl err, w1)
      | None \<Rightarrow> (Inr (find (has ''_id'' (JStr i)) (docs w)), w1))"

text \<open>\<open>Question.find(conditions).exec(callback)\<close>: every document that meets the conditions.\<close>

definition Question_find :: "cond list \<Rightarrow> world \<Rightarrow> (error + json list) \<times> world" where
  "Question_find conds w =
     (let w1 = issue (FindWhere conds) w in
      case fault w of
        Some err \<Rightarrow> (Inl err, w1)
      | None \<Rightarrow> (Inr (filter (matches conds) (docs w)), w1))"

text \<open>
  The sort key of \<open>sort({createdAt: -1})\<close>: the creation time, a document without one
  sorting below every document that has one.
\<close>

definition createdAt :: "json \<Rightarrow> int option" where
  "createdAt d = (case get_field ''createdAt'' d of Some (JNum t) \<Rightarrow> Some t | _ \<Rightarrow> None)"

text \<open>\<open>Question.find().sort({createdAt: -1}).limit(20).execAsync()\<close>.\<close>

definition Question_find_sorted :: "world \<Rightarrow> (error + json list) \<times> world" where
  "Question_find_sorted w =
     (let w1 = issue FindSorted w in
      case fault w of
        Some err \<Rightarrow> (Inl err, w1)
      | None \<Rightarrow> (Inr (take 20 (rev (sort_key createdAt (docs w)))), w1))"

text \<open>
  Modelled from the spec: the Question model (\<open>question.model\<close> is not among the
  sources). A Question has an opaque, store-assigned identifier and a creation
  timestamp; \<open>create\<close> inserts the payload as a new document carrying both.
\<close>

definition Question_create :: "(string \<times> json) list \<Rightarrow> world \<Rightarrow> (error + json option) \<times> world" where
  "Question_create b w =
     (let d = JObj (AList.update ''createdAt'' (JNum (clock w))
                     (AList.update ''_id'' (JStr (new_oid w)) b));
          w1 = issue (Create (JObj b)) w in
      case fault w of
        Some err \<Rightarrow> (Inl err, w1)
      | None \<Rightarrow> (Inr (Some d), w1\<lparr>docs := docs w @ [d]\<rparr>))"

text \<open>
  \<open>entity.saveAsync()\<close> writes the document back in place of the stored one it was
  fetched as; \<open>entity.removeAsync()\<close> deletes the stored document with its \<open>_id\<close>.
\<close>

definition saveAsync :: "json option \<Rightarrow> json \<Rightarrow> world \<Rightarrow> (error + json option) \<times> world" where
  "saveAsync oid updated w =
     (let w1 = issue (Save updated) w in
      case fault w of
        Some err \<Rightarrow> (Inl err, w1)
      | None \<Rightarrow>
          (case first_index (\<lambda>d. get_field ''_id'' d = oid) (docs w) of
             None \<Rightarrow> (Inr (Some updated), w1)
           | Some i \<Rightarrow> (Inr (Some updated), w1\<lparr>docs := (docs w)[i := updated]\<rparr>)))"

definition removeAsync :: "json \<Rightarrow> world \<Rightarrow> (error + unit) \<times> world" where
  "removeAsync entity w =
     (let w1 = issue (Remove entity) w in
      case fault w of
        Some err \<Rightarrow> (Inl err, w1)
      | None \<Rightarrow>
          (Inr (), w1\<lparr>docs := filter (\<lambda>d. get_field ''_id'' d \<noteq> get_field ''_id'' entity) (docs w)\<rparr>))"

section \<open>The controller\<close>

subsection \<open>The helpers of the promise chains\<close>

definition respond :: "res_call list \<Rightarrow> world \<Rightarrow> world" where
  "respond cs w = w\<lparr>res := res w @ cs\<rparr>"

text \<open>\<open>statusCode || 200\<close>: an absent or zero status code is 200.\<close>

definition code_or :: "nat \<Rightarrow> nat option \<Rightarrow> nat" where
  "code_or dflt statusCode =
     (case statusCode of None \<Rightarrow> dflt | Some n \<Rightarrow> if n = 0 then dflt else n)"

definition respondWithResult :: "nat option \<Rightarrow> json option \<Rightarrow> world \<Rightarrow> world" where
  "respondWithResult statusCode entity w =
     (case entity of
        Some e \<Rightarrow> respond [Status (code_or 200 statusCode), Json e] w
      | None \<Rightarrow> w)"

text \<open>
  \<open>_.merge(entity, updates)\<close> of a null entity has no \<open>saveAsync\<close> to call: the call
  raises a TypeError, which rejects the chain.
\<close>

definition saveUpdates :: "(string \<times> json) list \<Rightarrow> json option \<Rightarrow> world \<Rightarrow> (error + json option) \<times> world" where
  "saveUpdates updates entity w =
     (case entity of
        None \<Rightarrow> (Inl TypeError, w)
      | Some e \<Rightarrow> saveAsync (get_field ''_id'' e) (merge (mixed w) e updates) w)"

definition removeEntity :: "json option \<Rightarrow> world \<Rightarrow> (error + unit) \<times> world" where
  "removeEntity entity w =
     (case entity of
        Some e \<Rightarrow>
          (case removeAsync e w of
             (Inl err, w1) \<Rightarrow> (Inl err, w1)
           | (Inr u, w1) \<Rightarrow> (Inr (), respond [Status 204, End] w1))
      | None \<Rightarrow> (Inr (), w))"

definition handleEntityNotFound :: "json option \<Rightarrow> world \<Rightarrow> json option \<times> world" where
  "handleEntityNotFound entity w =
     (case entity of
        None \<Rightarrow> (None, respond [Status 404, End] w)
      | Some e \<Rightarrow> (Some e, w))"

definition handleError :: "nat option \<Rightarrow> error \<Rightarrow> world \<Rightarrow> world" where
  "handleError statusCode err w = respond [Status (code_or 500 statusCode), Send (Failure err)] w"

definition handleUnauthorized :: "request \<Rightarrow> json option \<Rightarrow> world \<Rightarrow> (error + json option) \<times> world" where
  "handleUnauthorized req entity w =
     (case entity of
        None \<Rightarrow> (Inr None, w)
      | Some e \<Rightarrow>
          (case owner e of
             None \<Rightarrow> (Inl TypeError, w)
           | Some holder \<Rightarrow>
               if holder \<noteq> user req
               then (Inr None, respond [Send (Value (JNum 403)), End] w)
               else (Inr (Some e), w)))"

subsection \<open>The handlers of the Question resource\<close>

text \<open>
  The handler \<open>show\<close> is called \<open>show_q\<close> here, \<open>show\<close> being a keyword of the proof
  language.
\<close>

definition index :: "request \<Rightarrow> world \<Rightarrow> world" where
  "index req w =
     (case Question_find_sorted w of
        (Inl err, w1) \<Rightarrow> handleError None err w1
      | (Inr qs, w1) \<Rightarrow> respondWithResult None (Some (JArr qs)) w1)"

definition show_q :: "request \<Rightarrow> world \<Rightarrow> world" where
  "show_q req w =
     (case Question_findById (params_id req) w of
        (Inl err, w1) \<Rightarrow> handleError None err w1
      | (Inr entity, w1) \<Rightarrow>
          (case handleEntityNotFound entity w1 of
             (e1, w2) \<Rightarrow> respondWithResult None e1 w2))"

definition create :: "request \<Rightarrow> world \<Rightarrow> world" where
  "create req w =
     (let b = AList.update ''user'' (JStr (user req)) (body req) in
      case Question_create b w of
        (Inl err, w1) \<Rightarrow> handleError None err w1
      | (Inr entity, w1) \<Rightarrow> respondWithResult (Some 201) entity w1)"

text \<open>\<open>if (req.body._id) { delete req.body._id }\<close>.\<close>

definition strip_id :: "(string \<times> json) list \<Rightarrow> (string \<times> json) list" where
  "strip_id b =
     (case map_of b ''_id'' of
        None \<Rightarrow> b
      | Some v \<Rightarrow> if truthy v then AList.delete ''_id'' b else b)"

definition update :: "request \<Rightarrow> world \<Rightarrow> world" where
  "update req w =
     (let b = strip_id (body req) in
      case Question_findById (params_id req) w of
        (Inl err, w1) \<Rightarrow> handleError None err w1
      | (Inr entity, w1) \<Rightarrow>
          (case handleEntityNotFound entity w1 of
             (e1, w2) \<Rightarrow>
               (case handleUnauthorized req e1 w2 of
                  (Inl err, w3) \<Rightarrow> handleError None err w3
                | (Inr e2, w3) \<Rightarrow>
                    (case saveUpdates b e2 w3 of
                       (Inl err, w4) \<Rightarrow> handleError None err w4
                     | (Inr e3, w4) \<Rightarrow> respondWithResult None e3 w4))))"

definition destroy :: "request \<Rightarrow> world \<Rightarrow> world" where
  "destroy req w =
     (case Question_findById (params_id req) w of
        (Inl err, w1) \<Rightarrow> handleError None err w1
      | (Inr entity, w1) \<Rightarrow>
          (case handleEntityNotFound entity w1 of
             (e1, w2) \<Rightarrow>
               (case handleUnauthorized req e1 w2 of
                  (Inl err, w3) \<Rightarrow> handleError None err w3
                | (Inr e2, w3) \<Rightarrow>
                    (case removeEntity e2 w3 of
                       (Inl err, w4) \<Rightarrow> handleError None err w4
                     | (Inr u, w4) \<Rightarrow> w4))))"

subsection \<open>Answers and comments\<close>

text \<open>
  The callback every handler of an embedded element passes to \<open>Question.update\<close>:
  \<open>function (err, num) { if (err) ...; if (num === 0) return res.send(404).end(); exports.show(req, res) }\<close>.
\<close>

definition callback :: "request \<Rightarrow> error + json \<Rightarrow> world \<Rightarrow> world" where
  "callback req r w =
     (case r of
        Inl err \<Rightarrow> handleError None err w
      | Inr num \<Rightarrow>
          if num = JNum 0 then respond [Send (Value (JNum 404)), End] w
          else show_q req w)"

text \<open>
  Modelled from the spec: the schema of the embedded elements (\<open>question.model\<close> is not
  among the sources). An Answer and a Comment have an identifier of their own, which
  the store assigns when the element is pushed.
\<close>

definition embedded :: "world \<Rightarrow> (string \<times> json) list \<Rightarrow> json" where
  "embedded w b = JObj (AList.update ''_id'' (JStr (new_oid w)) b)"

definition by_id :: "request \<Rightarrow> cond" where
  "by_id req = Top ''_id'' (JStr (params_id req))"

definition with_user :: "request \<Rightarrow> (string \<times> json) list" where
  "with_user req = AList.update ''user'' (JStr (user req)) (body req)"

text \<open>\<open>req.body.content\<close>; a body without it gives undefined, which the store writes as null.\<close>

definition body_content :: "request \<Rightarrow> json" where
  "body_content req = (case map_of (body req) ''content'' of None \<Rightarrow> JNull | Some v \<Rightarrow> v)"


definition updateAnswer :: "request \<Rightarrow> world \<Rightarrow> world" where
  "updateAnswer req w =
     (case Question_update
             [by_id req, Within [Key ''answers''] ''_id'' (JStr (params_answerId req))]
             (SetFields [([Key ''answers'', Dollar, Key ''content''], body_content req),
                         ([Key ''answers'', Dollar, Key ''user''], JStr (user req))]) w of
        (r, w1) \<Rightarrow> callback req r w1)"

definition destroyAnswer :: "request \<Rightarrow> world \<Rightarrow> world" where
  "destroyAnswer req w =
     (case Question_update [by_id req]
             (PullFrom [Key ''answers'']
                [(''_id'', JStr (params_answerId req)), (''user'', JStr (user req))]) w of
        (r, w1) \<Rightarrow> callback req r w1)"

definition createComment :: "request \<Rightarrow> world \<Rightarrow> world" where
  "createComment req w =
     (case Question_update [by_id req]
             (PushTo [Key ''comments''] (embedded w (with_user req))) w of
        (r, w1) \<Rightarrow> callback req r w1)"

definition destroyComment :: "request \<Rightarrow> world \<Rightarrow> world" where
  "destroyComment req w =
     (case Question_update [by_id req]
             (PullFrom [Key ''comments'']
                [(''_id'', JStr (params_commentId req)), (''user'', JStr (user req))]) w of
        (r, w1) \<Rightarrow> callback req r w1)"

definition updateComment :: "request \<Rightarrow> world \<Rightarrow> world" where
  "updateComment req w =
     (case Question_update
             [by_id req, Within [Key ''comments''] ''_id'' (JStr (params_commentId req))]
             (SetFields [([Key ''comments'', Dollar, Key ''content''], body_content req),
                         ([Key ''comments'', Dollar, Key ''user''], JStr (user req))]) w of
        (r, w1) \<Rightarrow> callback req r w1)"

definition createAnswerComment :: "request \<Rightarrow> world \<Rightarrow> world" where
  "createAnswerComment req w =
     (case Question_update
             [by_id req, Within [Key ''answers''] ''_id'' (JStr (params_answerId req))]
             (PushTo [Key ''answers'', Dollar, Key ''comments''] (embedded w (with_user req))) w of
        (r, w1) \<Rightarrow> callback req r w1)"

definition destroyAnswerComment :: "request \<Rightarrow> world \<Rightarrow> world" where
  "destroyAnswerComment req w =
     (case Question_update
             [by_id req, Within [Key ''answers''] ''_id'' (JStr (params_answerId req))]
             (PullFrom [Key ''answers'', Dollar, Key ''comments'']
                [(''_id'', JStr (params_commentId req)), (''user'', JStr (user req))]) w of
        (r, w1) \<Rightarrow> callback req r w1)"

text \<open>
  The loop of \<open>updateAnswerComment\<close> over \<open>question.answers\<close>: the positions \<open>i\<close> whose
  \<open>answers[i]._id.toString()\<close> equals the answer id, in order. An element without an
  identifier raises a TypeError, which ends the loop.
\<close>

fun scan :: "string \<Rightarrow> json list \<Rightarrow> nat \<Rightarrow> nat list \<times> error option" where
  "scan aid [] i = ([], None)"
| "scan aid (a # as) i =
     (case id_string a of
        None \<Rightarrow> ([], Some TypeError)
      | Some s \<Rightarrow>
          (case scan aid as (Suc i) of
             (js, e) \<Rightarrow> (if s = aid then i # js else js, e)))"

definition conditions :: "request \<Rightarrow> nat \<Rightarrow> cond list" where
  "conditions req i =
     [by_id req,
      Within [Key ''answers'', Idx i, Key ''comments''] ''_id'' (JStr (params_commentId req)),
      Within [Key ''answers'', Idx i, Key ''comments''] ''user'' (JStr (user req))]"

definition doc :: "request \<Rightarrow> nat \<Rightarrow> upd" where
  "doc req i =
     SetFields [([Key ''answers'', Idx i, Key ''comments'', Dollar, Key ''content''], body_content req)]"

text \<open>
  The updates the loop issues, one for every position found; their callbacks run once
  the loop is over, in the order of the updates.
\<close>

fun updates :: "request \<Rightarrow> nat list \<Rightarrow> world \<Rightarrow> (error + json) list \<times> world" where
  "updates req [] w = ([], w)"
| "updates req (i # js) w =
     (case Question_update (conditions req i) (doc req i) w of
        (r, w1) \<Rightarrow> (case updates req js w1 of (rs, w2) \<Rightarrow> (r # rs, w2)))"

definition updateAnswerComment :: "request \<Rightarrow> world \<Rightarrow> world" where
  "updateAnswerComment req w =
     (case Question_find [by_id req] w of
        (Inl err, w1) \<Rightarrow> handleError None err w1
      | (Inr questions, w1) \<Rightarrow>
          (case questions of
             [] \<Rightarrow> respond [Send (Value (JNum 404)), End] w1
           | question # rest \<Rightarrow>
               (case scan (params_answerId req) (items (get_field ''answers'' question)) 0 of
                  (found, thrown) \<Rightarrow>
                    (case updates req found w1 of
                       (rs, w2) \<Rightarrow>
                         (let w3 = (case thrown of
                                      Some err \<Rightarrow> w2\<lparr>uncaught := Some err\<rparr>
                                    | None \<Rightarrow>
                                        if found = [] then respond [Send (Value (JNum 404)), End] w2
                                        else w2)
                          in fold (callback req) rs w3)))))"

section \<open>What the client receives\<close>

text \<open>
  A response as the client receives it: a status code and, unless it is empty, a body.
  The body is what was sent, or the status text of a code (\<open>Not Found\<close> for 404,
  \<open>Forbidden\<close> for 403).
\<close>

datatype message = Phrase int | Sent payload

record response =
  code :: int
  content :: "message option"

text \<open>
  The response object of the HTTP framework, express 4, a library that is not among
  the sources, as its reference describes it. \<open>status(n)\<close> sets the status code;
  \<open>json(v)\<close> sends \<open>v\<close> as the body under the status set so far; \<open>send(v)\<close> does the same,
  but \<open>send(n)\<close> with a number as its only argument sets the status code to \<open>n\<close> and sends
  the status text of \<open>n\<close> as the body; \<open>end()\<close> finishes the response without a body. A
  status that was never set is 200. The first call that sends decides what the client
  receives; without one there is no response.
\<close>

fun render :: "int \<Rightarrow> res_call list \<Rightarrow> response option" where
  "render c [] = None"
| "render c (Status n # cs) = render (int n) cs"
| "render c (Json v # cs) = Some \<lparr>code = c, content = Some (Sent (Value v))\<rparr>"
| "render c (Send (Value (JNum n)) # cs) = Some \<lparr>code = n, content = Some (Phrase n)\<rparr>"
| "render c (Send v # cs) = Some \<lparr>code = c, content = Some (Sent v)\<rparr>"
| "render c (End # cs) = Some \<lparr>code = c, content = None\<rparr>"

definition received :: "world \<Rightarrow> response option" where
  "received w = render 200 (res w)"

section \<open>Notions of the statements\<close>

text \<open>\<open>put k v d\<close> is the object \<open>d\<close> with its field \<open>k\<close> set to \<open>v\<close>.\<close>

fun put :: "string \<Rightarrow> json \<Rightarrow> json \<Rightarrow> json" where
  "put k v (JObj kvs) = JObj (AList.update k v kvs)"
| "put k v d = d"

text \<open>A value that is neither an array nor an object.\<close>

fun scalar :: "json \<Rightarrow> bool" where
  "scalar (JArr xs) = False"
| "scalar (JObj kvs) = False"
| "scalar v = True"

section \<open>Example data\<close>

text \<open>
  A question of user \<open>u1\<close> with one answer of \<open>u1\<close>, which carries a comment of \<open>u2\<close> and a
  comment of \<open>u1\<close>; a request of user \<open>u2\<close> that addresses the question, the answer and
  the comment of \<open>u2\<close>; and a collection of 21 questions created at the times 0 to 20.
\<close>

definition comment1 :: json where
  "comment1 = JObj [(''_id'', JStr ''c1''), (''user'', JStr ''u2''), (''content'', JStr ''first'')]"

definition comment2 :: json where
  "comment2 = JObj [(''_id'', JStr ''c2''), (''user'', JStr ''u1''), (''content'', JStr ''second'')]"

definition answer1 :: json where
  "answer1 = JObj [(''_id'', JStr ''a1''), (''user'', JStr ''u1''), (''content'', JStr ''because''),
                   (''comments'', JArr [comment1, comment2])]"

definition question1 :: json where
  "question1 = JObj [(''_id'', JStr ''q1''), (''user'', JStr ''u1''), (''title'', JStr ''why''),
                     (''tags'', JArr [JStr ''a'', JStr ''b'']), (''createdAt'', JNum 1),
                     (''answers'', JArr [answer1]), (''comments'', JArr [comment1])]"

definition world1 :: world where
  "world1 = \<lparr>docs = [question1], fault = None, pos_last = True, mixed = (\<lambda>d v. v),
             new_oid = ''n1'', clock = 2,
             ops = [], res = [], uncaught = None\<rparr>"

definition request1 :: request where
  "request1 = \<lparr>params_id = ''q1'', params_answerId = ''a1'', params_commentId = ''c1'',
               body = [(''content'', JStr ''new'')], user = ''u2''\<rparr>"

definition stamped :: "nat \<Rightarrow> json" where
  "stamped n = JObj [(''createdAt'', JNum (int n))]"

definition world21 :: world where
  "world21 = world1\<lparr>docs := map stamped [0..<21]\<rparr>"

section \<open>Auxiliary facts\<close>

subsection \<open>Searching a list\<close>

lemma first_index_None: "first_index P xs = None \<longleftrightarrow> (\<forall>x\<in>set xs. \<not> P x)"
  by (induction xs) auto

lemma first_index_Some:
  "first_index P xs = Some i \<Longrightarrow> i < length xs \<and> P (xs ! i) \<and> (\<forall>j<i. \<not> P (xs ! j))"
proof (induction xs arbitrary: i)
  case Nil
  then show ?case by simp
next
  case (Cons x xs)
  show ?case
  proof (cases "P x")
    case True
    with Cons.prems show ?thesis by simp
  next
    case False
    with Cons.prems obtain j where j: "first_index P xs = Some j" "i = Suc j"
      by auto
    from Cons.IH [OF j(1)] False j(2) show ?thesis
      by (auto simp: less_Suc_eq_0_disj)
  qed
qed

lemma find_first_index: "find P xs = map_option ((!) xs) (first_index P xs)"
  by (induction xs) (auto simp: option.map_comp comp_def)

lemma list_ex_first_index: "list_ex P xs \<Longrightarrow> \<exists>j. first_index P xs = Some j"
  using first_index_None [of P xs] by (cases "first_index P xs") (auto simp: list_ex_iff)

lemma first_index_update:
  "first_index P xs = Some i \<Longrightarrow> P y \<Longrightarrow> first_index P (xs[i := y]) = Some i"
proof (induction xs arbitrary: i)
  case Nil
  then show ?case by simp
next
  case (Cons x xs)
  then show ?case by (cases i) (auto split: if_splits)
qed

subsection \<open>The newest documents\<close>

lemma newest_first: "sorted_wrt (\<lambda>a b. f b \<le> f a) (rev (sort_key f xs))"
  using sorted_sort_key [of f xs] by (simp add: sorted_wrt_rev sorted_map)

lemma newest_first_take: "sorted_wrt (\<lambda>a b. f b \<le> f a) (take n (rev (sort_key f xs)))"
  using newest_first [of f xs] sorted_wrt_take by blast

lemma older_dropped:
  assumes "distinct (map f xs)"
    and "x \<in> set xs - set (take n (rev (sort_key f xs)))"
    and "y \<in> set (take n (rev (sort_key f xs)))"
  shows "f x < f y"
proof -
  let ?s = "rev (sort_key f xs)"
  have "x \<in> set (take n ?s @ drop n ?s)" using assms(2) by simp
  with assms(2) have xd: "x \<in> set (drop n ?s)"
    unfolding set_append by blast
  have "sorted_wrt (\<lambda>a b. f b \<le> f a) (take n ?s @ drop n ?s)"
    using newest_first [of f xs] by simp
  then have le: "f x \<le> f y"
    using xd assms(3) unfolding sorted_wrt_append by blast
  have "distinct (map f (sort_key f xs))"
    using assms(1) by (simp add: distinct_map)
  then have "distinct (map f ?s)"
    by (metis distinct_rev rev_map)
  then have "distinct (map f (take n ?s @ drop n ?s))"
    by simp
  then have "f x \<noteq> f y"
    using xd assms(3) unfolding map_append distinct_append by auto
  with le show ?thesis by simp
qed

lemma strict_newest_first:
  assumes "distinct (map f xs)"
  shows "sorted_wrt (\<lambda>a b. f b < f a) (take n (rev (sort_key f xs)))"
proof -
  let ?s = "take n (rev (sort_key f xs))"
  have "distinct (map f (sort_key f xs))"
    using assms by (simp add: distinct_map)
  then have "distinct (map f (rev (sort_key f xs)))"
    by (metis distinct_rev rev_map)
  then have d: "distinct (map f ?s)"
    by (metis distinct_take take_map)
  have le: "sorted_wrt (\<lambda>a b. f b \<le> f a) ?s" by (rule newest_first_take)
  show ?thesis
    unfolding sorted_wrt_iff_nth_less
  proof (intro allI impI)
    fix i j assume ij: "i < j" "j < length ?s"
    then have "f (?s ! j) \<le> f (?s ! i)"
      using le unfolding sorted_wrt_iff_nth_less by blast
    moreover have "map f ?s ! i \<noteq> map f ?s ! j"
      using d ij by (simp add: distinct_conv_nth del: length_take nth_take)
    then have "f (?s ! i) \<noteq> f (?s ! j)"
      using ij by (simp del: length_take nth_take)
    ultimately show "f (?s ! j) < f (?s ! i)" by simp
  qed
qed

subsection \<open>The logs and the collection under the helpers\<close>

lemma respond_fields [simp]:
  "res (respond cs w) = res w @ cs" "docs (respond cs w) = docs w" "ops (respond cs w) = ops w"
  "fault (respond cs w) = fault w" "uncaught (respond cs w) = uncaught w"
  "pos_last (respond cs w) = pos_last w" "mixed (respond cs w) = mixed w"
  by (simp_all add: respond_def)

lemma issue_fields [simp]:
  "res (issue c w) = res w" "docs (issue c w) = docs w" "ops (issue c w) = ops w @ [c]"
  "fault (issue c w) = fault w" "uncaught (issue c w) = uncaught w" "pos_last (issue c w) = pos_last w"
  "mixed (issue c w) = mixed w"
  by (simp_all add: issue_def)

lemma docs_handleError [simp]: "docs (handleError c e w) = docs w"
  by (simp add: handleError_def)

lemma docs_respondWithResult [simp]: "docs (respondWithResult c e w) = docs w"
  by (simp add: respondWithResult_def split: option.splits)

lemma docs_show_q [simp]: "docs (show_q req w) = docs w"
  by (simp add: show_q_def Question_findById_def handleEntityNotFound_def Let_def
      split: option.splits)

lemma docs_callback [simp]: "docs (callback req r w) = docs w"
  by (simp add: callback_def split: sum.splits)

lemma callback_reply [simp]: "callback req (Inr (reply n m)) w = show_q req w"
  by (simp add: callback_def reply_def)


lemma show_q_found:
  assumes "fault w = None" and "first_index (has ''_id'' (JStr (params_id req))) (docs w) = Some i"
  shows "res (show_q req w) = res w @ [Status 200, Json (docs w ! i)]"
  using assms
  by (simp add: show_q_def Question_findById_def Let_def handleEntityNotFound_def
      respondWithResult_def code_or_def find_first_index)

lemma show_q_missing:
  assumes "fault w = None" and "\<not> list_ex (has ''_id'' (JStr (params_id req))) (docs w)"
  shows "res (show_q req w) = res w @ [Status 404, End]"
proof -
  have "first_index (has ''_id'' (JStr (params_id req))) (docs w) = None"
    using assms(2) by (simp add: first_index_None list_ex_iff)
  then show ?thesis
    using assms(1)
    by (simp add: show_q_def Question_findById_def Let_def handleEntityNotFound_def
        respondWithResult_def find_first_index)
qed

subsection \<open>Conditions and updates of the store\<close>

lemma has_object: "has k v e \<Longrightarrow> \<exists>kvs. e = JObj kvs \<and> map_of kvs k = Some v"
  by (cases e) (simp_all add: has_def)

lemma items_array: "x \<in> set (items a) \<Longrightarrow> \<exists>xs. a = Some (JArr xs)"
  by (cases a rule: items.cases) simp_all

lemma walk_key: "walk [Key k] d = get_field k d"
  by (cases d) (simp_all split: option.splits)

lemma has_put_other: "k \<noteq> a \<Longrightarrow> has k v (put a x d) = has k v d"
  by (cases d) (simp_all add: has_def AList.update_conv')

lemma has_id_string: "has ''_id'' (JStr s) a \<longleftrightarrow> id_string a = Some s"
  by (auto simp: has_def id_string_def split: option.splits json.splits)

lemma matches_by_id [simp]: "matches [by_id req] d = has ''_id'' (JStr (params_id req)) d"
  by (simp add: matches_def by_id_def)

lemma matches_by_id_fun: "matches [by_id req] = has ''_id'' (JStr (params_id req))"
  by (rule ext) simp

lemma meets_id_user [simp]:
  "meets [(''_id'', a), (''user'', u)] e = (has ''_id'' a e \<and> has ''user'' u e)"
  by (simp add: meets_def)

lemma update_no_match:
  assumes "fault w = None" and "\<not> list_ex (matches conds) (docs w)"
  shows "Question_update conds u w = (Inr (reply 0 0), issue (Update conds u) w)"
proof -
  have "first_index (matches conds) (docs w) = None"
    using assms(2) by (simp add: first_index_None list_ex_iff)
  then show ?thesis using assms(1) by (simp add: Question_update_def Let_def)
qed

lemma within_key:
  assumes "holds (Within [Key arr] k v) d"
  shows "\<exists>kvs xs j ekvs. d = JObj kvs \<and> map_of kvs arr = Some (JArr xs)
           \<and> first_index (has k v) xs = Some j \<and> j < length xs \<and> xs ! j = JObj ekvs"
proof -
  from assms obtain x where x: "x \<in> set (items (walk [Key arr] d))"
    by (auto simp: list_ex_iff)
  then obtain xs where xs: "walk [Key arr] d = Some (JArr xs)"
    using items_array by blast
  then obtain kvs where d: "d = JObj kvs" "map_of kvs arr = Some (JArr xs)"
    by (cases d) (simp_all split: option.splits)
  from assms xs obtain j where j: "first_index (has k v) xs = Some j"
    using list_ex_first_index [of "has k v" xs] by auto
  from first_index_Some [OF j] have "j < length xs" "has k v (xs ! j)" by simp_all
  then obtain ekvs where "xs ! j = JObj ekvs" using has_object by blast
  with d j \<open>j < length xs\<close> show ?thesis by blast
qed

lemma set_positional:
  assumes "map_of kvs arr = Some (JArr xs)" "j < length xs" "xs ! j = JObj ekvs"
  shows "apply_upd (Some j)
           (SetFields [([Key arr, Dollar, Key ''content''], c), ([Key arr, Dollar, Key ''user''], u)])
           (JObj kvs)
         = put arr (JArr (xs[j := put ''user'' u (put ''content'' c (xs ! j))])) (JObj kvs)"
  using assms by (simp add: AList.update_conv')

lemma bound_single:
  "bound lst [Top a b, Within p k v] d = first_index (has k v) (items (walk p d))"
  by (simp add: bound_def split: option.splits)

lemma positional_set:
  assumes "fault w = None"
    and "first_index (matches [by_id req, Within [Key arr] ''_id'' v]) (docs w) = Some i"
  shows "\<exists>xs j. get_field arr (docs w ! i) = Some (JArr xs)
           \<and> first_index (has ''_id'' v) xs = Some j
           \<and> docs (callback req' (fst (Question_update [by_id req, Within [Key arr] ''_id'' v]
                  (SetFields [([Key arr, Dollar, Key ''content''], c), ([Key arr, Dollar, Key ''user''], u)]) w))
                 (snd (Question_update [by_id req, Within [Key arr] ''_id'' v]
                  (SetFields [([Key arr, Dollar, Key ''content''], c), ([Key arr, Dollar, Key ''user''], u)]) w)))
             = (docs w)[i := put arr (JArr (xs[j := put ''user'' u (put ''content'' c (xs ! j))])) (docs w ! i)]"
proof -
  let ?d = "docs w ! i"
  from first_index_Some [OF assms(2)] have "matches [by_id req, Within [Key arr] ''_id'' v] ?d"
    by simp
  then have "holds (Within [Key arr] ''_id'' v) ?d"
    by (simp add: matches_def)
  from within_key [OF this] obtain kvs xs j ekvs where
    d: "?d = JObj kvs" and a: "map_of kvs arr = Some (JArr xs)"
    and j: "first_index (has ''_id'' v) xs = Some j" and l: "j < length xs" and e: "xs ! j = JObj ekvs"
    by blast
  have b: "bound (pos_last w) [by_id req, Within [Key arr] ''_id'' v] ?d = Some j"
    using d a j by (simp add: by_id_def bound_single)
  have "docs (snd (Question_update [by_id req, Within [Key arr] ''_id'' v]
                  (SetFields [([Key arr, Dollar, Key ''content''], c), ([Key arr, Dollar, Key ''user''], u)]) w))
        = (docs w)[i := put arr (JArr (xs[j := put ''user'' u (put ''content'' c (xs ! j))])) ?d]"
    using assms b set_positional [OF a l e, of c u] d
    by (simp add: Question_update_def Let_def del: apply_upd.simps put.simps)
  moreover have "get_field arr ?d = Some (JArr xs)" using d a by simp
  ultimately show ?thesis using j by auto
qed

lemma pull_top:
  assumes "fault w = None"
    and "first_index (has ''_id'' (JStr (params_id req))) (docs w) = Some i"
    and "get_field arr (docs w ! i) = Some (JArr xs)"
    and "arr \<noteq> ''_id''"
    and "W = (case Question_update [by_id req] (PullFrom [Key arr] crit) w of (r, w1) \<Rightarrow> callback req r w1)"
    and "d' = put arr (JArr (filter (\<lambda>e. \<not> meets crit e) xs)) (docs w ! i)"
  shows "docs W = (docs w)[i := d'] \<and> res W = res w @ [Status 200, Json d']"
proof -
  let ?d = "docs w ! i"
  from assms(3) obtain kvs where d: "?d = JObj kvs" "map_of kvs arr = Some (JArr xs)"
    by (cases ?d) simp_all
  have m: "first_index (matches [by_id req]) (docs w) = Some i"
    using assms(2) by (simp add: matches_by_id_fun)
  have ap: "apply_upd n (PullFrom [Key arr] crit) ?d = d'" for n
    using d assms(6) by simp
  let ?w1 = "(issue (Update [by_id req] (PullFrom [Key arr] crit)) w)\<lparr>docs := (docs w)[i := d']\<rparr>"
  have q: "Question_update [by_id req] (PullFrom [Key arr] crit) w
           = (Inr (reply 1 (if d' = docs w ! i then 0 else 1)), ?w1)"
    using assms(1) m ap by (simp add: Question_update_def Let_def del: apply_upd.simps matches_by_id)
  have "has ''_id'' (JStr (params_id req)) ?d"
    using first_index_Some [OF assms(2)] by simp
  then have "has ''_id'' (JStr (params_id req)) d'"
    using assms(4,6) by (simp add: has_put_other del: put.simps)
  then have f: "first_index (has ''_id'' (JStr (params_id req))) (docs ?w1) = Some i"
    using first_index_update [OF assms(2)] by simp
  have l: "i < length (docs w)" using first_index_Some [OF assms(2)] by simp
  have "res (show_q req ?w1) = res ?w1 @ [Status 200, Json (docs ?w1 ! i)]"
    by (rule show_q_found [OF _ f]) (simp add: assms(1))
  then have "res (show_q req ?w1) = res w @ [Status 200, Json d']"
    using l by simp
  then show ?thesis
    using q assms(5) by simp
qed

lemma pull_nothing:
  assumes "get_field arr d = Some (JArr xs)" and "\<forall>e\<in>set xs. \<not> P e"
  shows "put arr (JArr (filter (\<lambda>e. \<not> P e) xs)) d = d"
proof -
  from assms(1) obtain kvs where d: "d = JObj kvs" "map_of kvs arr = Some (JArr xs)"
    by (cases d) simp_all
  have "filter (\<lambda>e. \<not> P e) xs = xs" using assms(2) by (simp add: filter_id_conv)
  then show ?thesis using d by (simp add: AList.update_triv)
qed

lemma scan_none:
  "\<forall>a\<in>set as. id_string a \<noteq> None \<and> id_string a \<noteq> Some aid \<Longrightarrow> scan aid as i = ([], None)"
  by (induction as arbitrary: i) (auto split: option.splits)

section \<open>Creating a question\<close>

text \<open>
  Claim C6. Whenever the store accepts the insert, \<open>create\<close> answers with status 201 and
  the created document, and the owning user of that document is the acting user of the
  request, whatever the body of the request says about \<open>user\<close>.
\<close>

theorem create_owned_by_acting_user:
  assumes "fault w = None"
  shows "\<exists>d. res (create req w) = res w @ [Status 201, Json d]
            \<and> docs (create req w) = docs w @ [d]
            \<and> owner d = Some (user req)"
  using assms
  by (simp add: create_def Question_create_def Let_def respondWithResult_def code_or_def owner_def
      AList.update_conv')

theorem create_owned_by_acting_user_witness:
  "fault world1 = None
   \<and> map_of (body (request1\<lparr>body := [(''title'', JStr ''how''), (''user'', JStr ''u9'')]\<rparr>)) ''user''
       = Some (JStr ''u9'')
   \<and> (\<exists>d. res (create (request1\<lparr>body := [(''title'', JStr ''how''), (''user'', JStr ''u9'')]\<rparr>) world1)
             = res world1 @ [Status 201, Json d]
          \<and> docs (create (request1\<lparr>body := [(''title'', JStr ''how''), (''user'', JStr ''u9'')]\<rparr>) world1)
             = docs world1 @ [d]
          \<and> owner d = Some ''u2'')"
proof -
  have h: "fault world1 = None" by code_simp
  have u: "user (request1\<lparr>body := [(''title'', JStr ''how''), (''user'', JStr ''u9'')]\<rparr>) = ''u2''"
    by code_simp
  show ?thesis
    using create_owned_by_acting_user
      [OF h, of "request1\<lparr>body := [(''title'', JStr ''how''), (''user'', JStr ''u9'')]\<rparr>"] h
    unfolding u by simp
qed

section \<open>Listing the questions\<close>

text \<open>
  Claim C8. When the store answers, \<open>index\<close> responds with at most 20 questions, ordered
  by creation time, newest first. If the collection holds more than 20 questions with
  distinct creation times, the response holds exactly 20, in strictly descending order,
  and every question left out was created before every question listed.
\<close>

theorem index_lists_newest_20:
  assumes "fault w = None"
  shows "\<exists>qs. res (index req w) = res w @ [Status 200, Json (JArr qs)]
     \<and> length qs \<le> 20 \<and> set qs \<subseteq> set (docs w)
     \<and> sorted_wrt (\<lambda>a b. createdAt b \<le> createdAt a) qs
     \<and> (20 < length (docs w) \<and> distinct (map createdAt (docs w)) \<longrightarrow>
          length qs = 20 \<and> sorted_wrt (\<lambda>a b. createdAt b < createdAt a) qs
          \<and> (\<forall>x\<in>set (docs w) - set qs. \<forall>y\<in>set qs. createdAt x < createdAt y))"
proof -
  let ?qs = "take 20 (rev (sort_key createdAt (docs w)))"
  have r: "res (index req w) = res w @ [Status 200, Json (JArr ?qs)]"
    using assms by (simp add: index_def Question_find_sorted_def respondWithResult_def code_or_def)
  have l: "length ?qs \<le> 20" by simp
  have "set ?qs \<subseteq> set (rev (sort_key createdAt (docs w)))" by (rule set_take_subset)
  then have s: "set ?qs \<subseteq> set (docs w)" by simp
  have o: "sorted_wrt (\<lambda>a b. createdAt b \<le> createdAt a) ?qs" by (rule newest_first_take)
  have a: "length ?qs = 20" if "20 < length (docs w)" using that by simp
  have b: "sorted_wrt (\<lambda>a b. createdAt b < createdAt a) ?qs" if "distinct (map createdAt (docs w))"
    using that by (rule strict_newest_first)
  have c: "\<forall>x\<in>set (docs w) - set ?qs. \<forall>y\<in>set ?qs. createdAt x < createdAt y"
    if "distinct (map createdAt (docs w))"
    using that older_dropped [of createdAt "docs w"] by blast
  show ?thesis
    apply (rule exI [of _ ?qs])
    using r l s o a b c by blast
qed

theorem index_lists_newest_20_witness:
  "fault world21 = None \<and> 20 < length (docs world21) \<and> distinct (map createdAt (docs world21))
   \<and> res (index request1 world21) = [Status 200, Json (JArr (map stamped (rev [1..<21])))]
   \<and> (\<exists>qs. res (index request1 world21) = res world21 @ [Status 200, Json (JArr qs)]
          \<and> length qs = 20 \<and> sorted_wrt (\<lambda>a b. createdAt b < createdAt a) qs)"
proof -
  have h: "fault world21 = None" by code_simp
  have n: "20 < length (docs world21)" by code_simp
  have d: "distinct (map createdAt (docs world21))" by code_simp
  have r: "res (index request1 world21) = [Status 200, Json (JArr (map stamped (rev [1..<21])))]"
    by code_simp
  from index_lists_newest_20 [OF h, of request1] n d
  have "\<exists>qs. res (index request1 world21) = res world21 @ [Status 200, Json (JArr qs)]
          \<and> length qs = 20 \<and> sorted_wrt (\<lambda>a b. createdAt b < createdAt a) qs"
    by blast
  with h n d r show ?thesis by blast
qed

section \<open>Updating an answer or a comment of a question\<close>

text \<open>
  Claim C2. When the store answers and the filter of \<open>updateAnswer\<close> (the question id
  and the answer id) matches, the first answer with that id in the first matching
  question gets the content of the request and the acting user as its user; nothing
  else in the collection changes. \<open>updateComment\<close> does the same for the comments of
  the question. Neither statement has a premise about the user the element had before:
  no ownership is checked.
\<close>

theorem updateAnswer_updateComment_reassign:
  assumes "fault w = None"
  shows "(first_index (matches [by_id req, Within [Key ''answers''] ''_id'' (JStr (params_answerId req))]) (docs w) = Some i \<longrightarrow>
          (\<exists>xs j. get_field ''answers'' (docs w ! i) = Some (JArr xs)
            \<and> first_index (has ''_id'' (JStr (params_answerId req))) xs = Some j
            \<and> docs (updateAnswer req w) =
                (docs w)[i := put ''answers'' (JArr (xs[j := put ''user'' (JStr (user req))
                                  (put ''content'' (body_content req) (xs ! j))])) (docs w ! i)]))
       \<and> (first_index (matches [by_id req, Within [Key ''comments''] ''_id'' (JStr (params_commentId req))]) (docs w) = Some i \<longrightarrow>
          (\<exists>xs j. get_field ''comments'' (docs w ! i) = Some (JArr xs)
            \<and> first_index (has ''_id'' (JStr (params_commentId req))) xs = Some j
            \<and> docs (updateComment req w) =
                (docs w)[i := put ''comments'' (JArr (xs[j := put ''user'' (JStr (user req))
                                  (put ''content'' (body_content req) (xs ! j))])) (docs w ! i)]))"
  using positional_set [OF assms, of req "''answers''" "JStr (params_answerId req)" i req]
    positional_set [OF assms, of req "''comments''" "JStr (params_commentId req)" i req]
  by (simp add: updateAnswer_def updateComment_def split_beta)

text \<open>
  In the example the acting user \<open>u2\<close> rewrites the answer of \<open>u1\<close> and becomes its user.
\<close>

theorem updateAnswer_updateComment_reassign_witness:
  "fault world1 = None
   \<and> first_index (matches [by_id request1, Within [Key ''answers''] ''_id'' (JStr (params_answerId request1))])
        (docs world1) = Some 0
   \<and> first_index (matches [by_id request1, Within [Key ''comments''] ''_id'' (JStr (params_commentId request1))])
        (docs world1) = Some 0
   \<and> owner answer1 = Some ''u1'' \<and> user request1 = ''u2''
   \<and> (\<exists>xs j. get_field ''answers'' (docs world1 ! 0) = Some (JArr xs)
            \<and> first_index (has ''_id'' (JStr (params_answerId request1))) xs = Some j
            \<and> docs (updateAnswer request1 world1) =
                (docs world1)[0 := put ''answers'' (JArr (xs[j := put ''user'' (JStr (user request1))
                                  (put ''content'' (body_content request1) (xs ! j))])) (docs world1 ! 0)])
   \<and> (\<exists>xs j. get_field ''comments'' (docs world1 ! 0) = Some (JArr xs)
            \<and> first_index (has ''_id'' (JStr (params_commentId request1))) xs = Some j
            \<and> docs (updateComment request1 world1) =
                (docs world1)[0 := put ''comments'' (JArr (xs[j := put ''user'' (JStr (user request1))
                                  (put ''content'' (body_content request1) (xs ! j))])) (docs world1 ! 0)])
   \<and> docs (updateAnswer request1 world1) =
       [put ''answers'' (JArr [put ''user'' (JStr ''u2'') (put ''content'' (JStr ''new'') answer1)]) question1]"
proof -
  have h: "fault world1 = None" by code_simp
  have a: "first_index (matches [by_id request1, Within [Key ''answers''] ''_id'' (JStr (params_answerId request1))])
        (docs world1) = Some 0" by code_simp
  have c: "first_index (matches [by_id request1, Within [Key ''comments''] ''_id'' (JStr (params_commentId request1))])
        (docs world1) = Some 0" by code_simp
  have o: "owner answer1 = Some ''u1''" "user request1 = ''u2''" by code_simp+
  have e: "docs (updateAnswer request1 world1) =
       [put ''answers'' (JArr [put ''user'' (JStr ''u2'') (put ''content'' (JStr ''new'') answer1)]) question1]"
    by code_simp
  from updateAnswer_updateComment_reassign [OF h, of request1 0] h a c o e
  show ?thesis by blast
qed

section \<open>A comment under an answer that does not exist\<close>

lemma received_send_404:
  "res v = Send (Value (JNum 404)) # cs \<Longrightarrow> received v = Some \<lparr>code = 404, content = Some (Phrase 404)\<rparr>"
  by (simp add: received_def)

lemma received_status_404:
  "res v = Status 404 # End # cs \<Longrightarrow> received v = Some \<lparr>code = 404, content = None\<rparr>"
  by (simp add: received_def)

lemma received_status_200:
  "res v = Status 200 # Json d # cs \<Longrightarrow> received v = Some \<lparr>code = 200, content = Some (Sent (Value d))\<rparr>"
  by (simp add: received_def)

text \<open>
  Claim C3 says that neither the update nor the delete of a comment under an absent
  answer issues a write to the store, and that both respond 404. The delete does
  neither: \<open>destroyAnswerComment\<close> always calls \<open>Question.update\<close>, with the answer id in
  its filter, and its callback then compares the reply of the store, an object, with 0
  and goes on to \<open>show\<close>. In the example no answer of the question has the id \<open>zz\<close>: the
  update call is issued, and the response is 200 with the question.
\<close>

theorem destroyAnswerComment_absent_answer_issues_update:
  "\<not> list_ex (has ''_id'' (JStr ''zz'')) (items (get_field ''answers'' question1))
   \<and> ops (destroyAnswerComment (request1\<lparr>params_answerId := ''zz''\<rparr>) world1) =
       [Update [Top ''_id'' (JStr ''q1''), Within [Key ''answers''] ''_id'' (JStr ''zz'')]
          (PullFrom [Key ''answers'', Dollar, Key ''comments'']
             [(''_id'', JStr ''c1''), (''user'', JStr ''u2'')]),
        FindById ''q1'']
   \<and> res (destroyAnswerComment (request1\<lparr>params_answerId := ''zz''\<rparr>) world1) =
       [Status 200, Json question1]
   \<and> received (destroyAnswerComment (request1\<lparr>params_answerId := ''zz''\<rparr>) world1) =
       Some \<lparr>code = 200, content = Some (Sent (Value question1))\<rparr>"
  by code_simp

text \<open>
  Claim C3, amended. Let the store answer, the response be fresh, and let every answer
  of every question with the requested id carry an identifier other than the requested
  answer id. Then the update handler responds 404 and issues no store write operation
  at all, only its find. The delete handler does issue a write, one \<open>Question.update\<close>
  call; its filter matches no document, and the collection stays as it is.
\<close>

theorem comment_under_absent_answer:
  assumes "fault w = None" and "res w = []"
    and "\<forall>d\<in>set (docs w). has ''_id'' (JStr (params_id req)) d \<longrightarrow>
           (\<forall>a\<in>set (items (get_field ''answers'' d)).
              id_string a \<noteq> None \<and> id_string a \<noteq> Some (params_answerId req))"
  shows "docs (updateAnswerComment req w) = docs w
       \<and> ops (updateAnswerComment req w) = ops w @ [FindWhere [by_id req]]
       \<and> res (updateAnswerComment req w) = [Send (Value (JNum 404)), End]
       \<and> received (updateAnswerComment req w) = Some \<lparr>code = 404, content = Some (Phrase 404)\<rparr>
       \<and> docs (destroyAnswerComment req w) = docs w
       \<and> \<not> list_ex (matches [by_id req, Within [Key ''answers''] ''_id'' (JStr (params_answerId req))]) (docs w)
       \<and> ops (destroyAnswerComment req w) =
           ops w @ [Update [by_id req, Within [Key ''answers''] ''_id'' (JStr (params_answerId req))]
                      (PullFrom [Key ''answers'', Dollar, Key ''comments'']
                         [(''_id'', JStr (params_commentId req)), (''user'', JStr (user req))]),
                    FindById (params_id req)]"
proof -
  let ?qs = "filter (matches [by_id req]) (docs w)"
  have u: "updateAnswerComment req w = respond [Send (Value (JNum 404)), End] (issue (FindWhere [by_id req]) w)"
  proof (cases ?qs)
    case Nil
    then show ?thesis using assms(1)
      by (simp add: updateAnswerComment_def Question_find_def Let_def del: matches_by_id)
  next
    case (Cons q rest)
    then have "q \<in> set ?qs" by simp
    then have "q \<in> set (docs w)" "has ''_id'' (JStr (params_id req)) q" by simp_all
    with assms(3) have "\<forall>a\<in>set (items (get_field ''answers'' q)).
              id_string a \<noteq> None \<and> id_string a \<noteq> Some (params_answerId req)" by blast
    from scan_none [OF this] have "scan (params_answerId req) (items (get_field ''answers'' q)) 0 = ([], None)" .
    then show ?thesis using assms(1) Cons
      by (simp add: updateAnswerComment_def Question_find_def Let_def del: matches_by_id)
  qed
  have r: "res (updateAnswerComment req w) = [Send (Value (JNum 404)), End]"
    using assms(2) by (simp add: u)
  have "\<not> matches [by_id req, Within [Key ''answers''] ''_id'' (JStr (params_answerId req))] d"
    if "d \<in> set (docs w)" for d
    using assms(3) that
    by (auto simp: matches_def by_id_def walk_key list_ex_iff has_id_string simp del: walk.simps)
  then have n: "\<not> list_ex (matches [by_id req, Within [Key ''answers''] ''_id'' (JStr (params_answerId req))]) (docs w)"
    by (simp add: list_ex_iff)
  note z = update_no_match [OF assms(1) this]
  have o: "ops (show_q req v) = ops v @ [FindById (params_id req)]" for v
    by (simp add: show_q_def Question_findById_def Let_def handleEntityNotFound_def
        respondWithResult_def handleError_def respond_def issue_def split: option.splits)
  show ?thesis
    using n r received_send_404 [OF r] by (simp add: u destroyAnswerComment_def z o)
qed

theorem comment_under_absent_answer_witness:
  "fault world1 = None \<and> res world1 = []
   \<and> docs world1 = [question1]
   \<and> map id_string (items (get_field ''answers'' question1)) = [Some ''a1'']
   \<and> params_answerId (request1\<lparr>params_answerId := ''zz''\<rparr>) = ''zz''
   \<and> has ''_id'' (JStr (params_id (request1\<lparr>params_answerId := ''zz''\<rparr>))) question1
   \<and> docs (updateAnswerComment (request1\<lparr>params_answerId := ''zz''\<rparr>) world1) = docs world1
   \<and> ops (updateAnswerComment (request1\<lparr>params_answerId := ''zz''\<rparr>) world1) =
       ops world1 @ [FindWhere [by_id (request1\<lparr>params_answerId := ''zz''\<rparr>)]]
   \<and> received (updateAnswerComment (request1\<lparr>params_answerId := ''zz''\<rparr>) world1) =
       Some \<lparr>code = 404, content = Some (Phrase 404)\<rparr>
   \<and> docs (destroyAnswerComment (request1\<lparr>params_answerId := ''zz''\<rparr>) world1) = docs world1"
proof -
  have h: "fault world1 = None" and f: "res world1 = []" by code_simp+
  have a: "\<forall>d\<in>set (docs world1). has ''_id'' (JStr (params_id (request1\<lparr>params_answerId := ''zz''\<rparr>))) d \<longrightarrow>
           (\<forall>a\<in>set (items (get_field ''answers'' d)).
              id_string a \<noteq> None \<and> id_string a \<noteq> Some (params_answerId (request1\<lparr>params_answerId := ''zz''\<rparr>)))"
    by code_simp
  have q: "has ''_id'' (JStr (params_id (request1\<lparr>params_answerId := ''zz''\<rparr>))) question1"
    by code_simp
  have e: "docs world1 = [question1]"
    "map id_string (items (get_field ''answers'' question1)) = [Some ''a1'']"
    "params_answerId (request1\<lparr>params_answerId := ''zz''\<rparr>) = ''zz''"
    by code_simp+
  from comment_under_absent_answer [OF h f a] h f q e show ?thesis by blast
qed

section \<open>Deleting an answer or a comment of a question\<close>

text \<open>
  Claim C5 says that a delete by someone who is not the owner of the element gives a
  matched count of 0 and so a 404. The filter of the update is the question id alone:
  the question matches, nothing is pulled, and the handler goes on to \<open>show\<close>. In the
  example \<open>u2\<close> asks to delete the answer of \<open>u1\<close> and gets 200 with the question.
\<close>

theorem destroyAnswer_not_owner_answers_200:
  "has ''_id'' (JStr (params_answerId request1)) answer1
   \<and> owner answer1 = Some ''u1'' \<and> user request1 = ''u2''
   \<and> docs (destroyAnswer request1 world1) = [question1]
   \<and> res (destroyAnswer request1 world1) = [Status 200, Json question1]
   \<and> received (destroyAnswer request1 world1) =
       Some \<lparr>code = 200, content = Some (Sent (Value question1))\<rparr>"
  by code_simp

text \<open>
  Claim C5, amended. Let the store answer and the response be fresh. The matched count
  is that of the filter, the question id. If no question has the requested id, it is 0:
  \<open>destroyAnswer\<close> and \<open>destroyComment\<close> change nothing and the response is a 404. If a
  question has it, the handler removes from its answers (its comments) exactly the
  elements that have both the requested element id and the acting user as their user,
  and the response is 200 with the question as it then is; when no element has both,
  because there is none with that id or because it belongs to someone else, the
  collection is unchanged and the response is 200 with the question.
\<close>

theorem destroyAnswer_destroyComment_pull:
  assumes "fault w = None" and "res w = []"
  shows "(\<not> list_ex (has ''_id'' (JStr (params_id req))) (docs w) \<longrightarrow>
            docs (destroyAnswer req w) = docs w
          \<and> res (destroyAnswer req w) = [Status 404, End]
          \<and> received (destroyAnswer req w) = Some \<lparr>code = 404, content = None\<rparr>
          \<and> docs (destroyComment req w) = docs w
          \<and> res (destroyComment req w) = [Status 404, End]
          \<and> received (destroyComment req w) = Some \<lparr>code = 404, content = None\<rparr>)
       \<and> (first_index (has ''_id'' (JStr (params_id req))) (docs w) = Some i
            \<and> get_field ''answers'' (docs w ! i) = Some (JArr xs) \<longrightarrow>
            docs (destroyAnswer req w) =
              (docs w)[i := put ''answers'' (JArr (filter (\<lambda>e. \<not> (has ''_id'' (JStr (params_answerId req)) e
                                \<and> has ''user'' (JStr (user req)) e)) xs)) (docs w ! i)]
          \<and> res (destroyAnswer req w) = res w @ [Status 200, Json
              (put ''answers'' (JArr (filter (\<lambda>e. \<not> (has ''_id'' (JStr (params_answerId req)) e
                                \<and> has ''user'' (JStr (user req)) e)) xs)) (docs w ! i))]
          \<and> ((\<forall>e\<in>set xs. \<not> (has ''_id'' (JStr (params_answerId req)) e \<and> has ''user'' (JStr (user req)) e)) \<longrightarrow>
                docs (destroyAnswer req w) = docs w
              \<and> res (destroyAnswer req w) = res w @ [Status 200, Json (docs w ! i)]
              \<and> received (destroyAnswer req w) =
                  Some \<lparr>code = 200, content = Some (Sent (Value (docs w ! i)))\<rparr>))
       \<and> (first_index (has ''_id'' (JStr (params_id req))) (docs w) = Some i
            \<and> get_field ''comments'' (docs w ! i) = Some (JArr ys) \<longrightarrow>
            docs (destroyComment req w) =
              (docs w)[i := put ''comments'' (JArr (filter (\<lambda>e. \<not> (has ''_id'' (JStr (params_commentId req)) e
                                \<and> has ''user'' (JStr (user req)) e)) ys)) (docs w ! i)]
          \<and> res (destroyComment req w) = res w @ [Status 200, Json
              (put ''comments'' (JArr (filter (\<lambda>e. \<not> (has ''_id'' (JStr (params_commentId req)) e
                                \<and> has ''user'' (JStr (user req)) e)) ys)) (docs w ! i))]
          \<and> ((\<forall>e\<in>set ys. \<not> (has ''_id'' (JStr (params_commentId req)) e \<and> has ''user'' (JStr (user req)) e)) \<longrightarrow>
                docs (destroyComment req w) = docs w
              \<and> res (destroyComment req w) = res w @ [Status 200, Json (docs w ! i)]
              \<and> received (destroyComment req w) =
                  Some \<lparr>code = 200, content = Some (Sent (Value (docs w ! i)))\<rparr>))"
proof (intro conjI impI)
  assume n: "\<not> list_ex (has ''_id'' (JStr (params_id req))) (docs w)"
  then have "\<not> list_ex (matches [by_id req]) (docs w)" by (simp add: matches_by_id_fun)
  note z = update_no_match [OF assms(1) this]
  have s: "res (show_q req (issue c w)) = [Status 404, End]" for c
    using show_q_missing [of "issue c w" req] assms n by simp
  show "docs (destroyAnswer req w) = docs w" by (simp add: destroyAnswer_def z)
  show a: "res (destroyAnswer req w) = [Status 404, End]"
    by (simp add: destroyAnswer_def z s)
  show "received (destroyAnswer req w) = Some \<lparr>code = 404, content = None\<rparr>"
    by (rule received_status_404 [OF a])
  show "docs (destroyComment req w) = docs w" by (simp add: destroyComment_def z)
  show c: "res (destroyComment req w) = [Status 404, End]"
    by (simp add: destroyComment_def z s)
  show "received (destroyComment req w) = Some \<lparr>code = 404, content = None\<rparr>"
    by (rule received_status_404 [OF c])
next
  let ?P = "\<lambda>e. has ''_id'' (JStr (params_answerId req)) e \<and> has ''user'' (JStr (user req)) e"
  assume a: "first_index (has ''_id'' (JStr (params_id req))) (docs w) = Some i
             \<and> get_field ''answers'' (docs w ! i) = Some (JArr xs)"
  have p: "docs (destroyAnswer req w) = (docs w)[i := put ''answers'' (JArr (filter (\<lambda>e. \<not> ?P e) xs)) (docs w ! i)]
        \<and> res (destroyAnswer req w) = res w @ [Status 200, Json (put ''answers'' (JArr (filter (\<lambda>e. \<not> ?P e) xs)) (docs w ! i))]"
    using pull_top [OF assms(1) conjunct1 [OF a] conjunct2 [OF a], of "destroyAnswer req w"
        "[(''_id'', JStr (params_answerId req)), (''user'', JStr (user req))]"]
    by (simp add: destroyAnswer_def del: put.simps)
  from p show "docs (destroyAnswer req w) = (docs w)[i := put ''answers'' (JArr (filter (\<lambda>e. \<not> ?P e) xs)) (docs w ! i)]" ..
  from p show "res (destroyAnswer req w) = res w @ [Status 200, Json (put ''answers'' (JArr (filter (\<lambda>e. \<not> ?P e) xs)) (docs w ! i))]" ..
  assume "\<forall>e\<in>set xs. \<not> ?P e"
  from pull_nothing [OF conjunct2 [OF a], of ?P, OF this]
  have e: "put ''answers'' (JArr (filter (\<lambda>e. \<not> ?P e) xs)) (docs w ! i) = docs w ! i" .
  show "docs (destroyAnswer req w) = docs w" using p unfolding e by simp
  show r: "res (destroyAnswer req w) = res w @ [Status 200, Json (docs w ! i)]" using p unfolding e by simp
  show "received (destroyAnswer req w) = Some \<lparr>code = 200, content = Some (Sent (Value (docs w ! i)))\<rparr>"
    using r assms(2) received_status_200 by simp
next
  let ?P = "\<lambda>e. has ''_id'' (JStr (params_commentId req)) e \<and> has ''user'' (JStr (user req)) e"
  assume a: "first_index (has ''_id'' (JStr (params_id req))) (docs w) = Some i
             \<and> get_field ''comments'' (docs w ! i) = Some (JArr ys)"
  have p: "docs (destroyComment req w) = (docs w)[i := put ''comments'' (JArr (filter (\<lambda>e. \<not> ?P e) ys)) (docs w ! i)]
        \<and> res (destroyComment req w) = res w @ [Status 200, Json (put ''comments'' (JArr (filter (\<lambda>e. \<not> ?P e) ys)) (docs w ! i))]"
    using pull_top [OF assms(1) conjunct1 [OF a] conjunct2 [OF a], of "destroyComment req w"
        "[(''_id'', JStr (params_commentId req)), (''user'', JStr (user req))]"]
    by (simp add: destroyComment_def del: put.simps)
  from p show "docs (destroyComment req w) = (docs w)[i := put ''comments'' (JArr (filter (\<lambda>e. \<not> ?P e) ys)) (docs w ! i)]" ..
  from p show "res (destroyComment req w) = res w @ [Status 200, Json (put ''comments'' (JArr (filter (\<lambda>e. \<not> ?P e) ys)) (docs w ! i))]" ..
  assume "\<forall>e\<in>set ys. \<not> ?P e"
  from pull_nothing [OF conjunct2 [OF a], of ?P, OF this]
  have e: "put ''comments'' (JArr (filter (\<lambda>e. \<not> ?P e) ys)) (docs w ! i) = docs w ! i" .
  show "docs (destroyComment req w) = docs w" using p unfolding e by simp
  show r: "res (destroyComment req w) = res w @ [Status 200, Json (docs w ! i)]" using p unfolding e by simp
  show "received (destroyComment req w) = Some \<lparr>code = 200, content = Some (Sent (Value (docs w ! i)))\<rparr>"
    using r assms(2) received_status_200 by simp
qed

text \<open>
  In the example \<open>u2\<close> cannot remove the answer of \<open>u1\<close> but removes its own comment; a
  request for a question that does not exist gets a 404.
\<close>

theorem destroyAnswer_destroyComment_pull_witness:
  "fault world1 = None \<and> res world1 = []
   \<and> first_index (has ''_id'' (JStr (params_id request1))) (docs world1) = Some 0
   \<and> get_field ''answers'' (docs world1 ! 0) = Some (JArr [answer1])
   \<and> get_field ''comments'' (docs world1 ! 0) = Some (JArr [comment1])
   \<and> \<not> (has ''_id'' (JStr (params_answerId request1)) answer1 \<and> has ''user'' (JStr (user request1)) answer1)
   \<and> docs (destroyAnswer request1 world1) = docs world1
   \<and> received (destroyAnswer request1 world1) =
       Some \<lparr>code = 200, content = Some (Sent (Value (docs world1 ! 0)))\<rparr>
   \<and> docs (destroyComment request1 world1) = [put ''comments'' (JArr []) question1]
   \<and> \<not> list_ex (has ''_id'' (JStr (params_id (request1\<lparr>params_id := ''zz''\<rparr>)))) (docs world1)
   \<and> received (destroyAnswer (request1\<lparr>params_id := ''zz''\<rparr>) world1) =
       Some \<lparr>code = 404, content = None\<rparr>"
proof -
  have h: "fault world1 = None" and r: "res world1 = []" by code_simp+
  have f: "first_index (has ''_id'' (JStr (params_id request1))) (docs world1) = Some 0" by code_simp
  have a: "get_field ''answers'' (docs world1 ! 0) = Some (JArr [answer1])" by code_simp
  have c: "get_field ''comments'' (docs world1 ! 0) = Some (JArr [comment1])" by code_simp
  have n: "\<forall>e\<in>set [answer1]. \<not> (has ''_id'' (JStr (params_answerId request1)) e \<and> has ''user'' (JStr (user request1)) e)"
    by code_simp
  have z: "\<not> list_ex (has ''_id'' (JStr (params_id (request1\<lparr>params_id := ''zz''\<rparr>)))) (docs world1)"
    by code_simp
  have e: "(docs world1)[0 := put ''comments'' (JArr (filter (\<lambda>e. \<not> (has ''_id'' (JStr (params_commentId request1)) e
                                \<and> has ''user'' (JStr (user request1)) e)) [comment1])) (docs world1 ! 0)]
           = [put ''comments'' (JArr []) question1]"
    by code_simp
  note t = destroyAnswer_destroyComment_pull [OF h r, of request1 0 "[answer1]" "[comment1]"]
  note t' = destroyAnswer_destroyComment_pull [OF h r, of "request1\<lparr>params_id := ''zz''\<rparr>"]
  have 1: "docs (destroyAnswer request1 world1) = docs world1
         \<and> received (destroyAnswer request1 world1) =
             Some \<lparr>code = 200, content = Some (Sent (Value (docs world1 ! 0)))\<rparr>"
    using t f a n by blast
  have 2: "docs (destroyComment request1 world1) = [put ''comments'' (JArr []) question1]"
    using t f c e by simp
  have 3: "received (destroyAnswer (request1\<lparr>params_id := ''zz''\<rparr>) world1) =
       Some \<lparr>code = 404, content = None\<rparr>"
    using t' z by blast
  from n have n': "\<not> (has ''_id'' (JStr (params_answerId request1)) answer1 \<and> has ''user'' (JStr (user request1)) answer1)"
    by simp
  from h r f a c n' 1 2 z 3 show ?thesis by blast
qed

section \<open>Updating a question\<close>

subsection \<open>The payload and the merge\<close>

lemma strip_id_other: "k \<noteq> ''_id'' \<Longrightarrow> map_of (strip_id b) k = map_of b k"
  by (simp add: strip_id_def split: option.splits)

lemma strip_id_truthy:
  "map_of b ''_id'' = Some v \<Longrightarrow> truthy v \<Longrightarrow> map_of (strip_id b) ''_id'' = None"
  by (simp add: strip_id_def AList.delete_conv')

lemma strip_id_distinct: "distinct (map fst b) \<Longrightarrow> distinct (map fst (strip_id b))"
  by (simp add: strip_id_def AList.distinct_delete split: option.splits)

lemma merge_val_scalar: "scalar v \<Longrightarrow> merge_val mx d v = v"
  by (cases v) simp_all

lemma merge_obj_untouched: "k \<notin> fst ` set s \<Longrightarrow> map_of (merge_obj mx kvs s) k = map_of kvs k"
proof (induction s arbitrary: kvs)
  case Nil
  then show ?case by simp
next
  case (Cons p s)
  obtain k' v' where p: "p = (k', v')" by (cases p)
  with Cons.prems have "k \<noteq> k'" "k \<notin> fst ` set s" by auto
  with Cons.IH [of "AList.update k' (merge_val mx (map_of kvs k') v') kvs"] p
  show ?case by (simp add: AList.update_conv')
qed

lemma merge_obj_field:
  "distinct (map fst s) \<Longrightarrow> map_of s k = Some v
   \<Longrightarrow> map_of (merge_obj mx kvs s) k = Some (merge_val mx (map_of kvs k) v)"
proof (induction s arbitrary: kvs)
  case Nil
  then show ?case by simp
next
  case (Cons p s)
  obtain k' v' where p: "p = (k', v')" by (cases p)
  show ?case
  proof (cases "k' = k")
    case True
    with Cons.prems p have v: "v' = v" and n: "k \<notin> fst ` set s" by auto
    from merge_obj_untouched [OF n] p True v show ?thesis
      by (simp add: AList.update_conv')
  next
    case False
    with Cons.prems p have d: "distinct (map fst s)" and m: "map_of s k = Some v" by auto
    from Cons.IH [OF d m, of "AList.update k' (merge_val mx (map_of kvs k') v') kvs"] p False
    show ?thesis by (simp add: AList.update_conv')
  qed
qed

lemma merge_arr_scalars:
  "list_all scalar s \<Longrightarrow> merge_arr mx xs s = s @ drop (length s) xs"
proof (induction s arbitrary: xs)
  case Nil
  then show ?case by simp
next
  case (Cons v s)
  then show ?case by (cases xs) (simp_all add: merge_val_scalar)
qed

lemma merge_untouched:
  assumes "map_of b k = None"
  shows "get_field k (merge mx (JObj kvs) b) = get_field k (JObj kvs)"
proof -
  from assms have "k \<notin> fst ` set b" by (simp add: map_of_eq_None_iff)
  then show ?thesis by (simp add: merge_def merge_obj_untouched)
qed

lemma merge_field:
  assumes "distinct (map fst b)" and "map_of b k = Some v"
  shows "get_field k (merge mx (JObj kvs) b) = Some (merge_val mx (get_field k (JObj kvs)) v)"
  using merge_obj_field [OF assms] by (simp add: merge_def)

lemma update_by_owner:
  assumes "fault w = None"
    and "first_index (has ''_id'' (JStr (params_id req))) (docs w) = Some i"
    and "owner (docs w ! i) = Some (user req)"
  shows "docs (update req w) = (docs w)[i := merge (mixed w) (docs w ! i) (strip_id (body req))]
       \<and> ops (update req w) = ops w @ [FindById (params_id req), Save (merge (mixed w) (docs w ! i) (strip_id (body req)))]
       \<and> res (update req w) = res w @ [Status 200, Json (merge (mixed w) (docs w ! i) (strip_id (body req)))]"
proof -
  have "has ''_id'' (JStr (params_id req)) (docs w ! i)"
    using first_index_Some [OF assms(2)] by simp
  then have g: "get_field ''_id'' (docs w ! i) = Some (JStr (params_id req))"
    by (simp add: has_def)
  have "(\<lambda>d. get_field ''_id'' d = Some (JStr (params_id req))) = has ''_id'' (JStr (params_id req))"
    by (rule ext) (simp add: has_def)
  then have s: "first_index (\<lambda>d. get_field ''_id'' d = Some (JStr (params_id req))) (docs w) = Some i"
    using assms(2) by simp
  show ?thesis
    using assms g s
    by (simp add: update_def Question_findById_def Let_def find_first_index handleEntityNotFound_def
        handleUnauthorized_def saveUpdates_def saveAsync_def respondWithResult_def code_or_def)
qed

subsection \<open>What the merge keeps and what it overwrites\<close>

text \<open>
  Claim C7 says that a client-supplied \<open>_id\<close> is stripped before the merge and that the
  merge overwrites the fields of the payload. The guard \<open>if (req.body._id)\<close> tests the
  truthiness of the \<open>_id\<close>, and the merge is recursive on arrays and objects. In the
  example the owner \<open>u1\<close> sends \<open>{_id: 0}\<close>, and the document that is saved carries that
  \<open>_id\<close>; with \<open>{tags: ['x']}\<close> the saved tags are \<open>['x', 'b']\<close>, not the tags of the
  payload.
\<close>

theorem update_keeps_falsy_id_and_merges_arrays:
  "owner question1 = Some (user (request1\<lparr>user := ''u1''\<rparr>))
   \<and> map_of (strip_id [(''_id'', JNum 0)]) ''_id'' = Some (JNum 0)
   \<and> ops (update (request1\<lparr>user := ''u1'', body := [(''_id'', JNum 0)]\<rparr>) world1) =
       [FindById ''q1'', Save (put ''_id'' (JNum 0) question1)]
   \<and> get_field ''tags'' question1 = Some (JArr [JStr ''a'', JStr ''b''])
   \<and> ops (update (request1\<lparr>user := ''u1'', body := [(''tags'', JArr [JStr ''x''])]\<rparr>) world1) =
       [FindById ''q1'', Save (put ''tags'' (JArr [JStr ''x'', JStr ''b'']) question1)]"
  by code_simp

text \<open>
  Claim C7, amended. Let the store answer, let the question exist and belong to the
  acting user, and let the payload name each field once. Then \<open>update\<close> saves and
  answers 200 with the stored document merged with the stripped payload, where
  \<^item> a truthy \<open>_id\<close> of the payload is stripped, and no field other than \<open>_id\<close> is;
  \<^item> a field the stripped payload does not name keeps its stored value (the \<open>_id\<close>
    of the document, in particular, when the payload's was truthy);
  \<^item> a field the stripped payload names with a value that is neither an array nor an
    object becomes that value;
  \<^item> an array of such values is written over the stored array position by position,
    the stored elements beyond its length staying, and makes a new field when the
    document has none of that name;
  \<^item> an object is merged into the stored object in the same way: the fields it does
    not name stay, the fields it names with a value that is neither an array nor an
    object become that value.
\<close>

theorem update_merges_stripped_payload:
  assumes "fault w = None"
    and "first_index (has ''_id'' (JStr (params_id req))) (docs w) = Some i"
    and "owner (docs w ! i) = Some (user req)"
    and "distinct (map fst (body req))"
  shows "docs (update req w) = (docs w)[i := merge (mixed w) (docs w ! i) (strip_id (body req))]
       \<and> res (update req w) =
           res w @ [Status 200, Json (merge (mixed w) (docs w ! i) (strip_id (body req)))]
       \<and> (\<forall>v. map_of (body req) ''_id'' = Some v \<and> truthy v \<longrightarrow>
            map_of (strip_id (body req)) ''_id'' = None)
       \<and> (\<forall>k. k \<noteq> ''_id'' \<longrightarrow> map_of (strip_id (body req)) k = map_of (body req) k)
       \<and> (\<forall>k. map_of (strip_id (body req)) k = None \<longrightarrow>
            get_field k (merge (mixed w) (docs w ! i) (strip_id (body req))) = get_field k (docs w ! i))
       \<and> (\<forall>k v. map_of (strip_id (body req)) k = Some v \<and> scalar v \<longrightarrow>
            get_field k (merge (mixed w) (docs w ! i) (strip_id (body req))) = Some v)
       \<and> (\<forall>k s xs. map_of (strip_id (body req)) k = Some (JArr s) \<and> list_all scalar s
              \<and> get_field k (docs w ! i) = Some (JArr xs) \<longrightarrow>
            get_field k (merge (mixed w) (docs w ! i) (strip_id (body req)))
              = Some (JArr (s @ drop (length s) xs)))
       \<and> (\<forall>k s. map_of (strip_id (body req)) k = Some (JArr s) \<and> list_all scalar s
              \<and> get_field k (docs w ! i) = None \<longrightarrow>
            get_field k (merge (mixed w) (docs w ! i) (strip_id (body req))) = Some (JArr s))
       \<and> (\<forall>k s kvs. map_of (strip_id (body req)) k = Some (JObj s) \<and> distinct (map fst s)
              \<and> get_field k (docs w ! i) = Some (JObj kvs) \<longrightarrow>
            (\<exists>kvs'. get_field k (merge (mixed w) (docs w ! i) (strip_id (body req))) = Some (JObj kvs')
               \<and> (\<forall>k'. map_of s k' = None \<longrightarrow> map_of kvs' k' = map_of kvs k')
               \<and> (\<forall>k' v'. map_of s k' = Some v' \<and> scalar v' \<longrightarrow> map_of kvs' k' = Some v')))"
proof -
  let ?b = "strip_id (body req)"
  let ?m = "merge (mixed w) (docs w ! i) ?b"
  have "has ''_id'' (JStr (params_id req)) (docs w ! i)"
    using first_index_Some [OF assms(2)] by simp
  then obtain dkvs where d: "docs w ! i = JObj dkvs" using has_object by blast
  note o = update_by_owner [OF assms(1-3)]
  note f = merge_field [OF strip_id_distinct [OF assms(4)], of _ _ "mixed w" dkvs, folded d]
  have u: "\<forall>k. map_of ?b k = None \<longrightarrow> get_field k ?m = get_field k (docs w ! i)"
    unfolding d using merge_untouched by blast
  have sc: "\<forall>k v. map_of ?b k = Some v \<and> scalar v \<longrightarrow> get_field k ?m = Some v"
    using f merge_val_scalar by metis
  have ar: "\<forall>k s xs. map_of ?b k = Some (JArr s) \<and> list_all scalar s
              \<and> get_field k (docs w ! i) = Some (JArr xs) \<longrightarrow>
            get_field k ?m = Some (JArr (s @ drop (length s) xs))"
  proof (intro allI impI)
    fix k s xs
    assume a: "map_of ?b k = Some (JArr s) \<and> list_all scalar s
              \<and> get_field k (docs w ! i) = Some (JArr xs)"
    then have "get_field k ?m = Some (merge_val (mixed w) (Some (JArr xs)) (JArr s))"
      using f [of k "JArr s"] by simp
    with a show "get_field k ?m = Some (JArr (s @ drop (length s) xs))"
      by (simp add: merge_arr_scalars)
  qed
  have an: "\<forall>k s. map_of ?b k = Some (JArr s) \<and> list_all scalar s
              \<and> get_field k (docs w ! i) = None \<longrightarrow> get_field k ?m = Some (JArr s)"
  proof (intro allI impI)
    fix k s
    assume a: "map_of ?b k = Some (JArr s) \<and> list_all scalar s
              \<and> get_field k (docs w ! i) = None"
    then have "get_field k ?m = Some (merge_val (mixed w) None (JArr s))"
      using f [of k "JArr s"] by simp
    with a show "get_field k ?m = Some (JArr s)"
      by (simp add: merge_arr_scalars)
  qed
  have ob: "\<forall>k s kvs. map_of ?b k = Some (JObj s) \<and> distinct (map fst s)
              \<and> get_field k (docs w ! i) = Some (JObj kvs) \<longrightarrow>
            (\<exists>kvs'. get_field k ?m = Some (JObj kvs')
               \<and> (\<forall>k'. map_of s k' = None \<longrightarrow> map_of kvs' k' = map_of kvs k')
               \<and> (\<forall>k' v'. map_of s k' = Some v' \<and> scalar v' \<longrightarrow> map_of kvs' k' = Some v'))"
  proof (intro allI impI)
    fix k s kvs
    assume a: "map_of ?b k = Some (JObj s) \<and> distinct (map fst s)
              \<and> get_field k (docs w ! i) = Some (JObj kvs)"
    then have g: "get_field k ?m = Some (JObj (merge_obj (mixed w) kvs s))"
      using f [of k "JObj s"] by simp
    have 1: "\<forall>k'. map_of s k' = None \<longrightarrow> map_of (merge_obj (mixed w) kvs s) k' = map_of kvs k'"
      by (simp add: merge_obj_untouched map_of_eq_None_iff)
    have 2: "\<forall>k' v'. map_of s k' = Some v' \<and> scalar v' \<longrightarrow>
               map_of (merge_obj (mixed w) kvs s) k' = Some v'"
      using a merge_obj_field [of s _ _ "mixed w" kvs] merge_val_scalar by metis
    from g 1 2 show "\<exists>kvs'. get_field k ?m = Some (JObj kvs')
               \<and> (\<forall>k'. map_of s k' = None \<longrightarrow> map_of kvs' k' = map_of kvs k')
               \<and> (\<forall>k' v'. map_of s k' = Some v' \<and> scalar v' \<longrightarrow> map_of kvs' k' = Some v')"
      by blast
  qed
  have st: "\<forall>v. map_of (body req) ''_id'' = Some v \<and> truthy v \<longrightarrow> map_of ?b ''_id'' = None"
    using strip_id_truthy by blast
  have ot: "\<forall>k. k \<noteq> ''_id'' \<longrightarrow> map_of ?b k = map_of (body req) k"
    using strip_id_other by blast
  from o have o1: "docs (update req w) = (docs w)[i := ?m]"
    and o2: "res (update req w) = res w @ [Status 200, Json ?m]" by simp_all
  show ?thesis
    by (intro conjI) (rule o1, rule o2, rule st, rule ot, rule u, rule sc, rule ar, rule an, rule ob)
qed

text \<open>
  In the example the owner sends a new title and one tag together with the \<open>_id\<close> of
  another document: the title is overwritten, the first tag is overwritten and the
  second stays, and so does the \<open>_id\<close>.
\<close>

theorem update_merges_stripped_payload_witness:
  "fault world1 = None
   \<and> first_index (has ''_id'' (JStr (params_id (request1\<lparr>user := ''u1'',
          body := [(''_id'', JStr ''q9''), (''title'', JStr ''how''), (''tags'', JArr [JStr ''x''])]\<rparr>))))
        (docs world1) = Some 0
   \<and> owner (docs world1 ! 0) = Some (user (request1\<lparr>user := ''u1'',
          body := [(''_id'', JStr ''q9''), (''title'', JStr ''how''), (''tags'', JArr [JStr ''x''])]\<rparr>))
   \<and> distinct (map fst (body (request1\<lparr>user := ''u1'',
          body := [(''_id'', JStr ''q9''), (''title'', JStr ''how''), (''tags'', JArr [JStr ''x''])]\<rparr>)))
   \<and> map_of (body (request1\<lparr>user := ''u1'',
          body := [(''_id'', JStr ''q9''), (''title'', JStr ''how''), (''tags'', JArr [JStr ''x''])]\<rparr>)) ''_id''
        = Some (JStr ''q9'')
   \<and> truthy (JStr ''q9'')
   \<and> map_of (strip_id (body (request1\<lparr>user := ''u1'',
          body := [(''_id'', JStr ''q9''), (''title'', JStr ''how''), (''tags'', JArr [JStr ''x''])]\<rparr>))) ''_id''
        = None
   \<and> get_field ''_id'' (merge (mixed world1) (docs world1 ! 0) (strip_id (body (request1\<lparr>user := ''u1'',
          body := [(''_id'', JStr ''q9''), (''title'', JStr ''how''), (''tags'', JArr [JStr ''x''])]\<rparr>))))
        = Some (JStr ''q1'')
   \<and> get_field ''tags'' (merge (mixed world1) (docs world1 ! 0) (strip_id (body (request1\<lparr>user := ''u1'',
          body := [(''_id'', JStr ''q9''), (''title'', JStr ''how''), (''tags'', JArr [JStr ''x''])]\<rparr>))))
        = Some (JArr [JStr ''x'', JStr ''b''])
   \<and> docs (update (request1\<lparr>user := ''u1'',
          body := [(''_id'', JStr ''q9''), (''title'', JStr ''how''), (''tags'', JArr [JStr ''x''])]\<rparr>) world1)
       = [put ''tags'' (JArr [JStr ''x'', JStr ''b'']) (put ''title'' (JStr ''how'') question1)]"
proof -
  let ?r = "request1\<lparr>user := ''u1'',
          body := [(''_id'', JStr ''q9''), (''title'', JStr ''how''), (''tags'', JArr [JStr ''x''])]\<rparr>"
  let ?m = "merge (mixed world1) (docs world1 ! 0) (strip_id (body ?r))"
  have h: "fault world1 = None" by code_simp
  have f: "first_index (has ''_id'' (JStr (params_id ?r))) (docs world1) = Some 0" by code_simp
  have o: "owner (docs world1 ! 0) = Some (user ?r)" by code_simp
  have d: "distinct (map fst (body ?r))" by code_simp
  have b: "map_of (body ?r) ''_id'' = Some (JStr ''q9'')" by code_simp
  have t: "truthy (JStr ''q9'')" by simp
  have g: "map_of (strip_id (body ?r)) ''tags'' = Some (JArr [JStr ''x''])"
    "list_all scalar [JStr ''x'']"
    "get_field ''tags'' (docs world1 ! 0) = Some (JArr [JStr ''a'', JStr ''b''])"
    "get_field ''_id'' (docs world1 ! 0) = Some (JStr ''q1'')"
    by code_simp+
  have e: "(docs world1)[0 := ?m]
           = [put ''tags'' (JArr [JStr ''x'', JStr ''b'']) (put ''title'' (JStr ''how'') question1)]"
    by code_simp
  note m = update_merges_stripped_payload [OF h f o d]
  from m b t have 1: "map_of (strip_id (body ?r)) ''_id'' = None" by blast
  from m 1 have "get_field ''_id'' ?m = get_field ''_id'' (docs world1 ! 0)" by blast
  with g(4) have 2: "get_field ''_id'' ?m = Some (JStr ''q1'')" by simp
  from m g(1-3) have "get_field ''tags'' ?m
      = Some (JArr ([JStr ''x''] @ drop (length [JStr ''x'']) [JStr ''a'', JStr ''b'']))" by blast
  then have 3: "get_field ''tags'' ?m = Some (JArr [JStr ''x'', JStr ''b''])" by simp
  from m e have 4: "docs (update ?r world1)
       = [put ''tags'' (JArr [JStr ''x'', JStr ''b'']) (put ''title'' (JStr ''how'') question1)]" by simp
  from h f o d b t 1 2 3 4 show ?thesis by blast
qed

subsection \<open>The owner of a question can give it away\<close>

text \<open>
  Claim C9. \<open>update\<close> strips nothing but \<open>_id\<close> from the payload. When the store
  answers, the question exists and belongs to the acting user, and the payload names
  another user as \<open>user\<close>, the stored question and the document of the 200 response
  have that other user as their owner.
\<close>

theorem update_reassigns_owner:
  assumes "fault w = None"
    and "first_index (has ''_id'' (JStr (params_id req))) (docs w) = Some i"
    and "owner (docs w ! i) = Some (user req)"
    and "distinct (map fst (body req))"
    and "map_of (body req) ''user'' = Some (JStr u)"
  shows "owner (docs (update req w) ! i) = Some u
       \<and> (\<exists>d. res (update req w) = res w @ [Status 200, Json d] \<and> owner d = Some u)
       \<and> (\<forall>k. k \<noteq> ''_id'' \<longrightarrow> map_of (strip_id (body req)) k = map_of (body req) k)"
proof -
  let ?m = "merge (mixed w) (docs w ! i) (strip_id (body req))"
  have "has ''_id'' (JStr (params_id req)) (docs w ! i)" and l: "i < length (docs w)"
    using first_index_Some [OF assms(2)] by simp_all
  then obtain kvs where d: "docs w ! i = JObj kvs" using has_object by blast
  have "map_of (strip_id (body req)) ''user'' = Some (JStr u)"
    using assms(5) by (simp add: strip_id_other)
  from merge_field [OF strip_id_distinct [OF assms(4)] this, of "mixed w" kvs]
  have "get_field ''user'' ?m = Some (JStr u)" unfolding d by simp
  then have o: "owner ?m = Some u" by (simp add: owner_def)
  note b = update_by_owner [OF assms(1-3)]
  from b l o have "owner (docs (update req w) ! i) = Some u" by simp
  moreover from b o have "\<exists>d. res (update req w) = res w @ [Status 200, Json d] \<and> owner d = Some u"
    by blast
  ultimately show ?thesis using strip_id_other by blast
qed

theorem update_reassigns_owner_witness:
  "fault world1 = None
   \<and> first_index (has ''_id'' (JStr (params_id (request1\<lparr>user := ''u1'', body := [(''user'', JStr ''u2'')]\<rparr>))))
        (docs world1) = Some 0
   \<and> owner (docs world1 ! 0) = Some (user (request1\<lparr>user := ''u1'', body := [(''user'', JStr ''u2'')]\<rparr>))
   \<and> distinct (map fst (body (request1\<lparr>user := ''u1'', body := [(''user'', JStr ''u2'')]\<rparr>)))
   \<and> map_of (body (request1\<lparr>user := ''u1'', body := [(''user'', JStr ''u2'')]\<rparr>)) ''user'' = Some (JStr ''u2'')
   \<and> owner question1 = Some ''u1''
   \<and> owner (docs (update (request1\<lparr>user := ''u1'', body := [(''user'', JStr ''u2'')]\<rparr>) world1) ! 0) = Some ''u2''"
proof -
  let ?r = "request1\<lparr>user := ''u1'', body := [(''user'', JStr ''u2'')]\<rparr>"
  have h: "fault world1 = None" by code_simp
  have f: "first_index (has ''_id'' (JStr (params_id ?r))) (docs world1) = Some 0" by code_simp
  have o: "owner (docs world1 ! 0) = Some (user ?r)" by code_simp
  have d: "distinct (map fst (body ?r))" by code_simp
  have b: "map_of (body ?r) ''user'' = Some (JStr ''u2'')" by code_simp
  have q: "owner question1 = Some ''u1''" by code_simp
  from update_reassigns_owner [OF h f o d b] h f o d b q show ?thesis by blast
qed

section \<open>An update or a delete by someone who does not own the question\<close>

text \<open>
  For every request on a question that belongs to someone else, with the store
  answering: nothing is saved or removed, and the calls on \<open>res\<close> are these.
\<close>

lemma stranger_changes_nothing:
  assumes "fault w = None"
    and "first_index (has ''_id'' (JStr (params_id req))) (docs w) = Some i"
    and "owner (docs w ! i) = Some holder" and "holder \<noteq> user req"
  shows "docs (update req w) = docs w \<and> ops (update req w) = ops w @ [FindById (params_id req)]
       \<and> res (update req w) =
           res w @ [Send (Value (JNum 403)), End, Status 500, Send (Failure TypeError)]
       \<and> docs (destroy req w) = docs w \<and> ops (destroy req w) = ops w @ [FindById (params_id req)]
       \<and> res (destroy req w) = res w @ [Send (Value (JNum 403)), End]"
  using assms
  by (simp add: update_def destroy_def Question_findById_def Let_def find_first_index
      handleEntityNotFound_def handleUnauthorized_def saveUpdates_def removeEntity_def
      handleError_def code_or_def)

text \<open>
  Claim C1. When the acting user is not the owner, nothing is saved or removed, and
  \<open>handleUnauthorized\<close> calls \<open>res.send(403).end()\<close>: it passes 403 to \<open>send\<close>, where
  \<open>handleEntityNotFound\<close> sets its status with \<open>res.status(404)\<close>. \<open>destroy\<close> stops there,
  since \<open>removeEntity\<close> tests its entity. \<open>update\<close> goes on: \<open>saveUpdates\<close> does not test
  the null it is handed, raises a TypeError, and \<open>handleError\<close> calls
  \<open>res.status(500).send(err)\<close> on the response that was ended already. In the example
  \<open>u2\<close> addresses the question of \<open>u1\<close>.
\<close>

theorem update_by_stranger_sends_403_then_500:
  "owner question1 = Some ''u1'' \<and> user request1 = ''u2''
   \<and> docs (update request1 world1) = docs world1
   \<and> ops (update request1 world1) = [FindById ''q1'']
   \<and> res (update request1 world1) =
       [Send (Value (JNum 403)), End, Status 500, Send (Failure TypeError)]
   \<and> docs (destroy request1 world1) = docs world1
   \<and> ops (destroy request1 world1) = [FindById ''q1'']
   \<and> res (destroy request1 world1) = [Send (Value (JNum 403)), End]"
  by code_simp

section \<open>The two ways of answering 404\<close>






section \<open>Updating a comment of an answer\<close>

lemma filter_single_first_index:
  "filter P xs = [q] \<Longrightarrow> (\<And>x. Q x \<Longrightarrow> P x)
   \<Longrightarrow> first_index Q xs = (if Q q then first_index P xs else None)"
proof (induction xs)
  case Nil
  then show ?case by simp
next
  case (Cons x xs)
  show ?case
  proof (cases "P x")
    case True
    with Cons.prems(1) have e: "filter P xs = []" and x: "x = q" by simp_all
    from e have "\<forall>y\<in>set xs. \<not> P y" by (simp add: filter_empty_conv)
    with Cons.prems(2) have "\<forall>y\<in>set xs. \<not> Q y" by blast
    then have "first_index Q xs = None" by (simp add: first_index_None)
    with True x show ?thesis by simp
  next
    case False
    with Cons.prems(2) have nq: "\<not> Q x" by blast
    from False Cons.prems(1) have "filter P xs = [q]" by simp
    from Cons.IH [OF this Cons.prems(2)] False nq show ?thesis by simp
  qed
qed

lemma scan_unique:
  "\<forall>a\<in>set as. id_string a \<noteq> None \<Longrightarrow> i < length as
   \<Longrightarrow> \<forall>j<length as. (id_string (as ! j) = Some aid) = (j = i)
   \<Longrightarrow> scan aid as k = ([k + i], None)"
proof (induction as arbitrary: i k)
  case Nil
  then show ?case by simp
next
  case (Cons a as)
  from Cons.prems(1) obtain s where s: "id_string a = Some s" by auto
  have rest: "\<forall>a\<in>set as. id_string a \<noteq> None" using Cons.prems(1) by simp
  show ?case
  proof (cases i)
    case 0
    with Cons.prems(3) have "s = aid" using s by auto
    have "\<forall>a\<in>set as. id_string a \<noteq> Some aid"
    proof
      fix b assume "b \<in> set as"
      then obtain j where "j < length as" "as ! j = b" by (auto simp: in_set_conv_nth)
      with Cons.prems(3) 0 have "(id_string b = Some aid) = (Suc j = 0)"
        by (metis Suc_less_eq length_Cons nth_Cons_Suc)
      then show "id_string b \<noteq> Some aid" by simp
    qed
    with rest have "scan aid as (Suc k) = ([], None)" by (simp add: scan_none)
    with s \<open>s = aid\<close> 0 show ?thesis by simp
  next
    case (Suc i')
    with Cons.prems(3) have "s \<noteq> aid" using s by auto
    have l: "i' < length as" using Cons.prems(2) Suc by simp
    have "\<forall>j<length as. (id_string (as ! j) = Some aid) = (j = i')"
    proof (intro allI impI)
      fix j assume "j < length as"
      with Cons.prems(3) Suc have "(id_string ((a # as) ! Suc j) = Some aid) = (Suc j = Suc i')"
        by (metis Suc_less_eq length_Cons)
      then show "(id_string (as ! j) = Some aid) = (j = i')" by simp
    qed
    from Cons.IH [OF rest l this, of "Suc k"] s \<open>s \<noteq> aid\<close> Suc show ?thesis by simp
  qed
qed

lemma walk_comments:
  assumes "get_field ''answers'' d = Some (JArr as)" and "i < length as"
  shows "walk [Key ''answers'', Idx i, Key ''comments''] d = get_field ''comments'' (as ! i)"
proof -
  from assms(1) obtain kvs where "d = JObj kvs" "map_of kvs ''answers'' = Some (JArr as)"
    by (cases d) simp_all
  then show ?thesis using assms(2) by (cases "as ! i") (simp_all split: option.splits)
qed

lemma conditions_match:
  "matches (conditions req i) d =
     (has ''_id'' (JStr (params_id req)) d
      \<and> list_ex (has ''_id'' (JStr (params_commentId req))) (items (walk [Key ''answers'', Idx i, Key ''comments''] d))
      \<and> list_ex (has ''user'' (JStr (user req))) (items (walk [Key ''answers'', Idx i, Key ''comments''] d)))"
  by (simp add: matches_def conditions_def by_id_def del: walk.simps)

lemma conditions_bound:
  assumes "first_index (has ''_id'' (JStr (params_commentId req))) (items (walk [Key ''answers'', Idx i, Key ''comments''] d)) = Some n1"
    and "first_index (has ''user'' (JStr (user req))) (items (walk [Key ''answers'', Idx i, Key ''comments''] d)) = Some n2"
  shows "bound lst (conditions req i) d = Some (if lst then n2 else n1)"
  using assms by (simp add: bound_def conditions_def by_id_def List.map_filter_simps del: walk.simps)

lemma set_comment_content:
  assumes "get_field ''answers'' d = Some (JArr as)" and "i < length as"
    and "get_field ''comments'' (as ! i) = Some (JArr cs)" and "n < length cs"
    and "cs ! n = JObj ckvs"
  shows "apply_upd (Some n) (doc req i) d =
         put ''answers'' (JArr (as[i := put ''comments''
            (JArr (cs[n := put ''content'' (body_content req) (cs ! n)])) (as ! i)])) d"
proof -
  from assms(1) obtain kvs where d: "d = JObj kvs" "map_of kvs ''answers'' = Some (JArr as)"
    by (cases d) simp_all
  from assms(3) obtain akvs where a: "as ! i = JObj akvs" "map_of akvs ''comments'' = Some (JArr cs)"
    by (cases "as ! i") simp_all
  show ?thesis
    using d a assms(2,4,5) by (simp add: doc_def)
qed


lemma updateAnswerComment_single:
  assumes "fault w = None"
    and "filter (has ''_id'' (JStr (params_id req))) (docs w) = [q]"
    and "get_field ''answers'' q = Some (JArr as)"
    and "\<forall>a\<in>set as. id_string a \<noteq> None"
    and "i < length as"
    and "\<forall>j<length as. (id_string (as ! j) = Some (params_answerId req)) = (j = i)"
  shows "updateAnswerComment req w =
         (case Question_update (conditions req i) (doc req i) (issue (FindWhere [by_id req]) w) of
            (r, w1) \<Rightarrow> callback req r w1)"
proof -
  have f: "filter (matches [by_id req]) (docs w) = [q]"
    using assms(2) by (simp add: matches_by_id_fun)
  have s: "scan (params_answerId req) (items (get_field ''answers'' q)) 0 = ([i], None)"
    using scan_unique [OF assms(4,5,6), of 0] assms(3) by simp
  show ?thesis
    using assms(1) f s
    by (simp add: updateAnswerComment_def Question_find_def Let_def split_beta
        del: matches_by_id)
qed

text \<open>
  Claim C4. Only the comment with both the given id and the acting user as owner is to
  be modified, and a request for a comment of someone else is to change nothing and
  answer 404. The handler puts the comment id and the acting user into its conditions
  for that, but as two entries, \<open>'answers.i.comments._id'\<close> and
  \<open>'answers.i.comments.user'\<close>: the store matches each entry on its own, so two different
  comments of the answer can satisfy them. In the example \<open>u1\<close> asks to update comment
  \<open>c1\<close> of \<open>u2\<close>, under an answer where \<open>u1\<close> owns the comment \<open>c2\<close>: the update matches
  and the answer is 200. The comment that is rewritten is \<open>c2\<close>, which has another id,
  when the last condition binds the positional operator, and \<open>c1\<close>, which belongs to
  \<open>u2\<close>, when the first one does.
\<close>

theorem updateAnswerComment_other_owner_updates:
  "has ''_id'' (JStr (params_commentId (request1\<lparr>user := ''u1''\<rparr>))) comment1
   \<and> owner comment1 = Some ''u2'' \<and> user (request1\<lparr>user := ''u1''\<rparr>) = ''u1''
   \<and> docs (updateAnswerComment (request1\<lparr>user := ''u1''\<rparr>) world1) =
       [put ''answers'' (JArr [put ''comments''
           (JArr [comment1, put ''content'' (JStr ''new'') comment2]) answer1]) question1]
   \<and> res (updateAnswerComment (request1\<lparr>user := ''u1''\<rparr>) world1) =
       [Status 200, Json (put ''answers'' (JArr [put ''comments''
           (JArr [comment1, put ''content'' (JStr ''new'') comment2]) answer1]) question1)]
   \<and> docs (updateAnswerComment (request1\<lparr>user := ''u1''\<rparr>) (world1\<lparr>pos_last := False\<rparr>)) =
       [put ''answers'' (JArr [put ''comments''
           (JArr [put ''content'' (JStr ''new'') comment1, comment2]) answer1]) question1]
   \<and> res (updateAnswerComment (request1\<lparr>user := ''u1''\<rparr>) (world1\<lparr>pos_last := False\<rparr>)) =
       [Status 200, Json (put ''answers'' (JArr [put ''comments''
           (JArr [put ''content'' (JStr ''new'') comment1, comment2]) answer1]) question1)]"
  by code_simp

text \<open>
  What the handler does in general. Let the store answer, let exactly one question
  have the requested id, let its answers carry identifiers and exactly one of them, at
  position \<open>i\<close>, the requested answer id, and let \<open>cs\<close> be the comments of that answer.
  The update is conditional on some comment of \<open>cs\<close> having the requested comment id
  and on some comment of \<open>cs\<close> having the acting user as its user; the two need not be
  the same comment. If either condition fails, the collection is unchanged. If both
  hold, the content of exactly one comment of \<open>cs\<close> is overwritten and nothing else
  changes: that comment is the first one owned by the acting user when the last
  condition binds the positional operator, and the first one with the requested id
  when the first condition does. Either way the callback gets the reply of the store
  and goes on to \<open>show\<close>: the calls on \<open>res\<close> are those of a 200 with the question.
\<close>

theorem updateAnswerComment_two_conditions:
  assumes "fault w = None"
    and "first_index (has ''_id'' (JStr (params_id req))) (docs w) = Some m"
    and "filter (has ''_id'' (JStr (params_id req))) (docs w) = [docs w ! m]"
    and "get_field ''answers'' (docs w ! m) = Some (JArr as)"
    and "\<forall>a\<in>set as. id_string a \<noteq> None"
    and "i < length as"
    and "\<forall>j<length as. (id_string (as ! j) = Some (params_answerId req)) = (j = i)"
    and "cs = items (get_field ''comments'' (as ! i))"
  shows "(\<not> (list_ex (has ''_id'' (JStr (params_commentId req))) cs
             \<and> list_ex (has ''user'' (JStr (user req))) cs) \<longrightarrow>
            docs (updateAnswerComment req w) = docs w
          \<and> res (updateAnswerComment req w) = res w @ [Status 200, Json (docs w ! m)])
       \<and> (first_index (has ''_id'' (JStr (params_commentId req))) cs = Some n1
          \<and> first_index (has ''user'' (JStr (user req))) cs = Some n2
          \<and> n = (if pos_last w then n2 else n1) \<longrightarrow>
            docs (updateAnswerComment req w) =
              (docs w)[m := put ''answers'' (JArr (as[i := put ''comments''
                  (JArr (cs[n := put ''content'' (body_content req) (cs ! n)])) (as ! i)])) (docs w ! m)]
          \<and> res (updateAnswerComment req w) = res w @ [Status 200, Json
              (put ''answers'' (JArr (as[i := put ''comments''
                  (JArr (cs[n := put ''content'' (body_content req) (cs ! n)])) (as ! i)])) (docs w ! m))])"
proof -
  let ?q = "docs w ! m"
  let ?w0 = "issue (FindWhere [by_id req]) w"
  let ?P = "[Key ''answers'', Idx i, Key ''comments'']"
  note u = updateAnswerComment_single [OF assms(1,3,4,5,6,7)]
  have wk: "items (walk ?P ?q) = cs"
    using walk_comments [OF assms(4,6)] assms(8) by simp
  have mq: "matches (conditions req i) ?q =
      (list_ex (has ''_id'' (JStr (params_commentId req))) cs \<and> list_ex (has ''user'' (JStr (user req))) cs)"
    using first_index_Some [OF assms(2)] by (simp add: conditions_match wk del: walk.simps)
  have fi: "first_index (matches (conditions req i)) (docs w) =
      (if matches (conditions req i) ?q then Some m else None)"
    using filter_single_first_index [OF assms(3), of "matches (conditions req i)"] assms(2)
    by (simp add: conditions_match del: walk.simps)
  show ?thesis
  proof (intro conjI impI)
    assume "\<not> (list_ex (has ''_id'' (JStr (params_commentId req))) cs
             \<and> list_ex (has ''user'' (JStr (user req))) cs)"
    with mq fi have "first_index (matches (conditions req i)) (docs ?w0) = None" by simp
    then have z: "Question_update (conditions req i) (doc req i) ?w0
                  = (Inr (reply 0 0), issue (Update (conditions req i) (doc req i)) ?w0)"
      using assms(1) by (simp add: Question_update_def Let_def)
    have "res (show_q req (issue (Update (conditions req i) (doc req i)) ?w0))
          = res (issue (Update (conditions req i) (doc req i)) ?w0) @ [Status 200, Json (docs w ! m)]"
      using show_q_found [of "issue (Update (conditions req i) (doc req i)) ?w0" req m] assms(1,2)
      by simp
    then have r: "res (show_q req (issue (Update (conditions req i) (doc req i)) ?w0))
          = res w @ [Status 200, Json (docs w ! m)]" by simp
    show "docs (updateAnswerComment req w) = docs w" by (simp add: u z)
    show "res (updateAnswerComment req w) = res w @ [Status 200, Json (docs w ! m)]"
      using r by (simp add: u z)
  next
    let ?D = "put ''answers'' (JArr (as[i := put ''comments''
                  (JArr (cs[n := put ''content'' (body_content req) (cs ! n)])) (as ! i)])) ?q"
    assume b: "first_index (has ''_id'' (JStr (params_commentId req))) cs = Some n1
          \<and> first_index (has ''user'' (JStr (user req))) cs = Some n2
          \<and> n = (if pos_last w then n2 else n1)"
    then have n1: "first_index (has ''_id'' (JStr (params_commentId req))) cs = Some n1"
      and n2: "first_index (has ''user'' (JStr (user req))) cs = Some n2"
      and n: "n = (if pos_last w then n2 else n1)" by simp_all
    from first_index_Some [OF n1] first_index_Some [OF n2] n
    have nl: "n < length cs" and "has ''_id'' (JStr (params_commentId req)) (cs ! n) \<or> has ''user'' (JStr (user req)) (cs ! n)"
      by auto
    then obtain ckvs where ck: "cs ! n = JObj ckvs" using has_object by blast
    from nl have "cs ! n \<in> set (items (get_field ''comments'' (as ! i)))"
      using assms(8) by simp
    then have gc: "get_field ''comments'' (as ! i) = Some (JArr cs)"
      using items_array assms(8) by fastforce
    have "list_ex (has ''_id'' (JStr (params_commentId req))) cs" "list_ex (has ''user'' (JStr (user req))) cs"
      using first_index_Some [OF n1] first_index_Some [OF n2] by (auto simp: list_ex_iff)
    with mq fi have f: "first_index (matches (conditions req i)) (docs ?w0) = Some m" by simp
    have bd: "bound (pos_last ?w0) (conditions req i) ?q = Some n"
      using conditions_bound [of req i ?q n1 n2 "pos_last w"] n1 n2 n wk by simp
    have ap: "apply_upd (Some n) (doc req i) ?q = ?D"
      by (rule set_comment_content [OF assms(4,6) gc nl ck])
    let ?w1 = "(issue (Update (conditions req i) (doc req i)) ?w0)\<lparr>docs := (docs w)[m := ?D]\<rparr>"
    have z: "Question_update (conditions req i) (doc req i) ?w0
             = (Inr (reply 1 (if ?D = ?q then 0 else 1)), ?w1)"
      using assms(1) f bd ap
      by (simp add: Question_update_def Let_def del: apply_upd.simps put.simps)
    have "has ''_id'' (JStr (params_id req)) ?q"
      using first_index_Some [OF assms(2)] by simp
    then have "has ''_id'' (JStr (params_id req)) ?D"
      by (simp add: has_put_other del: put.simps)
    then have fd: "first_index (has ''_id'' (JStr (params_id req))) (docs ?w1) = Some m"
      using first_index_update [OF assms(2)] by simp
    have l: "m < length (docs w)" using first_index_Some [OF assms(2)] by simp
    have "res (show_q req ?w1) = res ?w1 @ [Status 200, Json (docs ?w1 ! m)]"
      by (rule show_q_found [OF _ fd]) (simp add: assms(1))
    then have r: "res (show_q req ?w1) = res w @ [Status 200, Json ?D]"
      using l by simp
    show "docs (updateAnswerComment req w) = (docs w)[m := ?D]"
      by (simp add: u z del: put.simps)
    show "res (updateAnswerComment req w) = res w @ [Status 200, Json ?D]"
      using r by (simp add: u z del: put.simps)
  qed
qed

text \<open>
  In the example \<open>u2\<close> updates its own comment \<open>c1\<close>; a request for a comment \<open>zz\<close> changes
  nothing.
\<close>

theorem updateAnswerComment_two_conditions_witness:
  "fault world1 = None
   \<and> first_index (has ''_id'' (JStr (params_id request1))) (docs world1) = Some 0
   \<and> filter (has ''_id'' (JStr (params_id request1))) (docs world1) = [docs world1 ! 0]
   \<and> get_field ''answers'' (docs world1 ! 0) = Some (JArr [answer1])
   \<and> id_string answer1 = Some (params_answerId request1)
   \<and> [comment1, comment2] = items (get_field ''comments'' ([answer1] ! 0))
   \<and> first_index (has ''_id'' (JStr (params_commentId request1))) [comment1, comment2] = Some 0
   \<and> first_index (has ''user'' (JStr (user request1))) [comment1, comment2] = Some 0
   \<and> docs (updateAnswerComment request1 world1) =
       [put ''answers'' (JArr [put ''comments''
           (JArr [put ''content'' (JStr ''new'') comment1, comment2]) answer1]) question1]
   \<and> \<not> (list_ex (has ''_id'' (JStr (params_commentId (request1\<lparr>params_commentId := ''zz''\<rparr>)))) [comment1, comment2]
          \<and> list_ex (has ''user'' (JStr (user (request1\<lparr>params_commentId := ''zz''\<rparr>)))) [comment1, comment2])
   \<and> docs (updateAnswerComment (request1\<lparr>params_commentId := ''zz''\<rparr>) world1) = docs world1
   \<and> res (updateAnswerComment (request1\<lparr>params_commentId := ''zz''\<rparr>) world1) =
       res world1 @ [Status 200, Json (docs world1 ! 0)]"
proof -
  let ?z = "request1\<lparr>params_commentId := ''zz''\<rparr>"
  have h: "fault world1 = None" by code_simp
  have m: "first_index (has ''_id'' (JStr (params_id request1))) (docs world1) = Some 0" by code_simp
  have s: "filter (has ''_id'' (JStr (params_id request1))) (docs world1) = [docs world1 ! 0]" by code_simp
  have a: "get_field ''answers'' (docs world1 ! 0) = Some (JArr [answer1])" by code_simp
  have i: "\<forall>a\<in>set [answer1]. id_string a \<noteq> None" by code_simp
  have l: "(0::nat) < length [answer1]" by simp
  have d: "id_string answer1 = Some (params_answerId request1)" by code_simp
  then have u: "\<forall>j<length [answer1]. (id_string ([answer1] ! j) = Some (params_answerId request1)) = (j = 0)"
    by simp
  have c: "[comment1, comment2] = items (get_field ''comments'' ([answer1] ! 0))" by code_simp
  have n1: "first_index (has ''_id'' (JStr (params_commentId request1))) [comment1, comment2] = Some 0"
    by code_simp
  have n2: "first_index (has ''user'' (JStr (user request1))) [comment1, comment2] = Some 0"
    by code_simp
  have e: "(docs world1)[0 := put ''answers'' (JArr ([answer1][0 := put ''comments''
              (JArr ([comment1, comment2][0 := put ''content'' (body_content request1) ([comment1, comment2] ! 0)]))
              ([answer1] ! 0)])) (docs world1 ! 0)]
           = [put ''answers'' (JArr [put ''comments''
               (JArr [put ''content'' (JStr ''new'') comment1, comment2]) answer1]) question1]"
    by code_simp
  have z: "\<not> (list_ex (has ''_id'' (JStr (params_commentId ?z))) [comment1, comment2]
          \<and> list_ex (has ''user'' (JStr (user ?z))) [comment1, comment2])"
    by code_simp
  have p: "params_id ?z = params_id request1" "params_answerId ?z = params_answerId request1"
    by simp_all
  note t = updateAnswerComment_two_conditions [OF h m s a i l u c, of 0 0 0]
  note t' = updateAnswerComment_two_conditions [of world1 ?z, unfolded p, OF h m s a i l u c]
  have 1: "docs (updateAnswerComment request1 world1) =
       [put ''answers'' (JArr [put ''comments''
           (JArr [put ''content'' (JStr ''new'') comment1, comment2]) answer1]) question1]"
    using t n1 n2 e by simp
  have 2: "docs (updateAnswerComment ?z world1) = docs world1
         \<and> res (updateAnswerComment ?z world1) = res world1 @ [Status 200, Json (docs world1 ! 0)]"
    using t' z by blast
  from h m s a d c n1 n2 1 z 2 show ?thesis by blast
qed

end
